theory Spec2Isabelle
  imports Main
begin

section \<open>Python values\<close>

text \<open>
  A Python \<open>str\<close> is a sequence of Unicode code points. A code point is a natural
  number, so that the result of decoding a file (which may hold any code point) and the
  names of files are values of one type. A \<open>bytes\<close> object is a list of 8-bit
  characters. String literals of the source are written \<open>lit ''...''\<close>.
\<close>

type_synonym pystr = "nat list"

type_synonym bytes = "char list"

definition lit :: "string \<Rightarrow> pystr" where
  "lit s = map of_char s"

datatype error =
    ValueError
  | TypeError
  | KeyError
  | UnicodeDecodeError
  | UnicodeEncodeError
  | IDAlreadyExistsError
  | OtherError pystr

subsection \<open>\<open>str.split()\<close>, \<open>str.join\<close>, \<open>str.startswith\<close>, slices, \<open>range\<close>, \<open>enumerate\<close>\<close>

text \<open>
  The code points that \<open>str.split()\<close> without a separator treats as whitespace
  (CPython's \<open>Py_UNICODE_ISSPACE\<close>): U+0009..U+000D, U+001C..U+0020, U+0085, U+00A0,
  U+1680, U+2000..U+200A, U+2028, U+2029, U+202F, U+205F, U+3000.
\<close>

definition isspace :: "nat \<Rightarrow> bool" where
  "isspace c \<longleftrightarrow>
     (9 \<le> c \<and> c \<le> 13) \<or> (28 \<le> c \<and> c \<le> 32) \<or> c = 133 \<or> c = 160 \<or> c = 5760 \<or>
     (8192 \<le> c \<and> c \<le> 8202) \<or> c = 8232 \<or> c = 8233 \<or> c = 8239 \<or> c = 8287 \<or> c = 12288"

text \<open>
  \<open>text.split()\<close>: runs of whitespace separate the words, and no empty word is
  produced. \<open>split_acc cur s\<close> scans \<open>s\<close> with the word read so far in \<open>cur\<close>.
\<close>

fun split_acc :: "pystr \<Rightarrow> pystr \<Rightarrow> pystr list" where
  "split_acc cur [] = (if cur = [] then [] else [cur])"
| "split_acc cur (c # cs) =
     (if isspace c then (if cur = [] then [] else [cur]) @ split_acc [] cs
      else split_acc (cur @ [c]) cs)"

definition split :: "pystr \<Rightarrow> pystr list" where
  "split s = split_acc [] s"

text \<open>\<open>sep.join(ws)\<close>.\<close>

fun join :: "pystr \<Rightarrow> pystr list \<Rightarrow> pystr" where
  "join sep [] = []"
| "join sep [w] = w"
| "join sep (w # v # ws) = w @ sep @ join sep (v # ws)"

text \<open>\<open>s.startswith(p)\<close>.\<close>

fun startswith :: "pystr \<Rightarrow> pystr \<Rightarrow> bool" where
  "startswith s [] = True"
| "startswith [] (p # ps) = False"
| "startswith (c # cs) (p # ps) = (c = p \<and> startswith cs ps)"

text \<open>
  The slice \<open>xs[i:j]\<close>: a negative bound counts from the end, and both bounds are
  clipped to the list.
\<close>

definition py_slice :: "'a list \<Rightarrow> int \<Rightarrow> int \<Rightarrow> 'a list" where
  "py_slice xs i j =
     (let n = int (length xs);
          lo = (if i < 0 then max (i + n) 0 else min i n);
          hi = (if j < 0 then max (j + n) 0 else min j n)
      in take (nat (hi - lo)) (drop (nat lo) xs))"

text \<open>
  \<open>range(start, stop, step)\<close>: a zero step raises \<open>ValueError\<close>; a positive step counts
  up while below \<open>stop\<close>, a negative step counts down while above it.
\<close>

function range_up :: "int \<Rightarrow> int \<Rightarrow> int \<Rightarrow> int list" where
  "range_up start stop step =
     (if 0 < step \<and> start < stop then start # range_up (start + step) stop step else [])"
  by pat_completeness auto
termination
  by (relation "measure (\<lambda>(start, stop, step). nat (stop - start))") auto

function range_down :: "int \<Rightarrow> int \<Rightarrow> int \<Rightarrow> int list" where
  "range_down start stop step =
     (if step < 0 \<and> stop < start then start # range_down (start + step) stop step else [])"
  by pat_completeness auto
termination
  by (relation "measure (\<lambda>(start, stop, step). nat (start - stop))") auto

declare range_up.simps [simp del] range_down.simps [simp del]

definition py_range :: "int \<Rightarrow> int \<Rightarrow> int \<Rightarrow> error + int list" where
  "py_range start stop step =
     (if step = 0 then Inl ValueError
      else if 0 < step then Inr (range_up start stop step)
      else Inr (range_down start stop step))"

text \<open>\<open>enumerate(xs)\<close> counts from 0.\<close>

fun enumerate_from :: "nat \<Rightarrow> 'a list \<Rightarrow> (nat \<times> 'a) list" where
  "enumerate_from n [] = []"
| "enumerate_from n (x # xs) = (n, x) # enumerate_from (Suc n) xs"

definition py_enumerate :: "'a list \<Rightarrow> (nat \<times> 'a) list" where
  "py_enumerate xs = enumerate_from 0 xs"

text \<open>\<open>str(n)\<close> of a non-negative integer: its decimal digits.\<close>

function str_nat :: "nat \<Rightarrow> pystr" where
  "str_nat n = (if n < 10 then [48 + n] else str_nat (n div 10) @ [48 + n mod 10])"
  by pat_completeness auto
termination
  by (relation "measure id") auto

declare str_nat.simps [simp del]

section \<open>The chunker (\<open>chunk_text\<close>, rag\_pipeline.py)\<close>

text \<open>
  \<^verbatim>\<open>
  def chunk_text(text, chunk_size=500, overlap=50):
      words = text.split()
      chunks = []
      for i in range(0, len(words), chunk_size - overlap):
          chunk = ' '.join(words[i:i+chunk_size])
          if chunk:
              chunks.append(chunk)
      return chunks
  \<close>
  The only exception the function can raise is that of \<open>range\<close> for a zero step.
\<close>

definition window :: "pystr list \<Rightarrow> int \<Rightarrow> int \<Rightarrow> pystr" where
  "window words chunk_size i = join (lit '' '') (py_slice words i (i + chunk_size))"

definition chunk_text :: "pystr \<Rightarrow> int \<Rightarrow> int \<Rightarrow> error + pystr list" where
  "chunk_text text chunk_size overlap =
     (let words = split text in
      case py_range 0 (int (length words)) (chunk_size - overlap) of
        Inl e \<Rightarrow> Inl e
      | Inr idxs \<Rightarrow> Inr (filter (\<lambda>chunk. chunk \<noteq> []) (map (window words chunk_size) idxs)))"

text \<open>
  \<open>ceil(a / b)\<close> on integers, and the chunk count that the specification states for a
  text of \<open>W\<close> words: \<open>ceil(max(W - overlap, 0) / (size - overlap))\<close>.
\<close>

definition ceil_div :: "int \<Rightarrow> int \<Rightarrow> int" where
  "ceil_div a b = - ((- a) div b)"

definition spec_chunk_count :: "int \<Rightarrow> int \<Rightarrow> int \<Rightarrow> int" where
  "spec_chunk_count W sz overlap = ceil_div (max (W - overlap) 0) (sz - overlap)"

section \<open>Paths and decoding\<close>

text \<open>
  \<open>os.path.basename(p)\<close> is what follows the last \<open>/\<close>. \<open>os.path.splitext(p)[1]\<close> is
  the part of the base name from its last dot on, or the empty string when the base name
  has no dot or only dots before the last one (POSIX paths).
\<close>

definition basename :: "pystr \<Rightarrow> pystr" where
  "basename p = rev (takeWhile (\<lambda>c. c \<noteq> 47) (rev p))"

definition splitext_ext :: "pystr \<Rightarrow> pystr" where
  "splitext_ext p =
     (let name = basename p;
          after = rev (takeWhile (\<lambda>c. c \<noteq> 46) (rev name));
          stem = take (length name - length after - 1) name
      in if 46 \<in> set name \<and> \<not> list_all (\<lambda>c. c = 46) stem then 46 # after else [])"

text \<open>
  What the pipeline and the upload processor take from their surroundings: the Unicode
  case table (\<open>str.lower()\<close> of a string that is not pure ASCII), the file system (the
  bytes of a file, or the exception of \<open>open\<close>), the PDF reader (the text of each page,
  \<open>None\<close> included), the OCR engine, and the embedding service. The embedding service
  is given the texts sent to it so far, so that it may answer the same text differently
  at different times. \<open>add_existing_id\<close> is what \<open>Collection.add\<close> of the installed
  Chroma release does for an id that the collection already holds: \<open>None\<close> when the
  record is silently ignored, \<open>Some e\<close> when the call raises \<open>e\<close>. No release replaces
  the stored record (that is \<open>Collection.upsert\<close>). \<open>stdout_error\<close> is what \<open>print\<close>
  does with a line: \<open>None\<close> when \<open>sys.stdout\<close> can encode the line and writes it,
  \<open>Some e\<close> when it raises \<open>e\<close> (\<open>UnicodeEncodeError\<close> for a line that the encoding of
  the stream cannot represent, such as a surrogate-escaped file name on a UTF-8 stream).
\<close>

record 'e env =
  ucd_lower :: "pystr \<Rightarrow> pystr"
  read_file :: "pystr \<Rightarrow> error + bytes"
  pdf_pages :: "pystr \<Rightarrow> error + pystr option list"
  ocr :: "pystr \<Rightarrow> error + pystr"
  embeddings_create :: "pystr list \<Rightarrow> pystr \<Rightarrow> error + 'e"
  add_existing_id :: "error option"
  stdout_error :: "pystr \<Rightarrow> error option"

definition ascii_lower :: "nat \<Rightarrow> nat" where
  "ascii_lower c = (if 65 \<le> c \<and> c \<le> 90 then c + 32 else c)"

definition py_lower :: "'e env \<Rightarrow> pystr \<Rightarrow> pystr" where
  "py_lower env s = (if list_all (\<lambda>c. c < 128) s then map ascii_lower s else ucd_lower env s)"

text \<open>
  The strict UTF-8 decoder: overlong forms, surrogates and values above U+10FFFF are
  errors. \<open>lo1\<close> and \<open>hi1\<close> bound the second byte of a sequence after its first.
\<close>

definition lo1 :: "nat \<Rightarrow> nat" where
  "lo1 b0 = (if b0 = 224 then 160 else if b0 = 240 then 144 else 128)"

definition hi1 :: "nat \<Rightarrow> nat" where
  "hi1 b0 = (if b0 = 237 then 160 else if b0 = 244 then 144 else 192)"

definition cont :: "nat \<Rightarrow> bool" where
  "cont b \<longleftrightarrow> 128 \<le> b \<and> b < 192"

fun utf8_decode :: "nat list \<Rightarrow> pystr option" where
  "utf8_decode [] = Some []"
| "utf8_decode (b0 # bs) =
     (if b0 < 128 then map_option ((#) b0) (utf8_decode bs)
      else if 194 \<le> b0 \<and> b0 < 224 then
        (case bs of
           b1 # r \<Rightarrow>
             if cont b1 then map_option ((#) ((b0 - 192) * 64 + (b1 - 128))) (utf8_decode r)
             else None
         | _ \<Rightarrow> None)
      else if 224 \<le> b0 \<and> b0 < 240 then
        (case bs of
           b1 # b2 # r \<Rightarrow>
             if lo1 b0 \<le> b1 \<and> b1 < hi1 b0 \<and> cont b2
             then map_option ((#) ((b0 - 224) * 4096 + (b1 - 128) * 64 + (b2 - 128)))
                    (utf8_decode r)
             else None
         | _ \<Rightarrow> None)
      else if 240 \<le> b0 \<and> b0 < 245 then
        (case bs of
           b1 # b2 # b3 # r \<Rightarrow>
             if lo1 b0 \<le> b1 \<and> b1 < hi1 b0 \<and> cont b2 \<and> cont b3
             then map_option
                    ((#) ((b0 - 240) * 262144 + (b1 - 128) * 4096 + (b2 - 128) * 64 + (b3 - 128)))
                    (utf8_decode r)
             else None
         | _ \<Rightarrow> None)
      else None)"

text \<open>
  Windows-1252 leaves five bytes undefined; the others between 0x80 and 0x9F have code
  points of their own, and every other byte is its own code point.
\<close>

definition cp1252_high :: "nat list" where
  "cp1252_high =
     [8364, 0, 8218, 402, 8222, 8230, 8224, 8225, 710, 8240, 352, 8249, 338, 0, 381, 0,
      0, 8216, 8217, 8220, 8221, 8226, 8211, 8212, 732, 8482, 353, 8250, 339, 0, 382, 376]"

definition cp1252_char :: "nat \<Rightarrow> nat option" where
  "cp1252_char b =
     (if 128 \<le> b \<and> b < 160
      then (if cp1252_high ! (b - 128) = 0 then None else Some (cp1252_high ! (b - 128)))
      else Some b)"

fun cp1252_decode :: "nat list \<Rightarrow> pystr option" where
  "cp1252_decode [] = Some []"
| "cp1252_decode (b # bs) =
     (case cp1252_char b of
        None \<Rightarrow> None
      | Some c \<Rightarrow> map_option ((#) c) (cp1252_decode bs))"

datatype encoding = UTF8 | Latin1 | CP1252

fun decode :: "encoding \<Rightarrow> bytes \<Rightarrow> pystr option" where
  "decode UTF8 bs = utf8_decode (map of_char bs)"
| "decode Latin1 bs = Some (map of_char bs)"
| "decode CP1252 bs = cp1252_decode (map of_char bs)"

text \<open>A file opened in text mode turns \<open>\r\n\<close> and \<open>\r\<close> into \<open>\n\<close> as it is read.\<close>

fun universal_newlines :: "pystr \<Rightarrow> pystr" where
  "universal_newlines [] = []"
| "universal_newlines [c] = (if c = 13 then [10] else [c])"
| "universal_newlines (c # d # cs) =
     (if c = 13 \<and> d = 10 then 10 # universal_newlines cs
      else if c = 13 then 10 # universal_newlines (d # cs)
      else c # universal_newlines (d # cs))"

text \<open>\<open>open(path, 'r', encoding=enc).read()\<close>.\<close>

definition open_read :: "'e env \<Rightarrow> pystr \<Rightarrow> encoding \<Rightarrow> error + pystr" where
  "open_read env path enc =
     (case read_file env path of
        Inl e \<Rightarrow> Inl e
      | Inr bs \<Rightarrow>
          (case decode enc bs of
             None \<Rightarrow> Inl UnicodeDecodeError
           | Some t \<Rightarrow> Inr (universal_newlines t)))"

section \<open>Text extraction\<close>

text \<open>
  rag\_pipeline.py:
  \<^verbatim>\<open>
  def extract_text_from_pdf(pdf_path):
      reader = PdfReader(pdf_path)
      text = ""
      for page in reader.pages:
          text += page.extract_text() or ""
      return text

  def extract_text_from_image(image_path):
      image = Image.open(image_path)
      return pytesseract.image_to_string(image)

  def extract_text_from_txt(txt_path):
      with open(txt_path, 'r', encoding='utf-8') as f:
          return f.read()
  \<close>
\<close>

definition extract_text_from_pdf :: "'e env \<Rightarrow> pystr \<Rightarrow> error + pystr" where
  "extract_text_from_pdf env pdf_path =
     (case pdf_pages env pdf_path of
        Inl e \<Rightarrow> Inl e
      | Inr pages \<Rightarrow> Inr (concat (map (\<lambda>page. case page of None \<Rightarrow> [] | Some t \<Rightarrow> t) pages)))"

definition extract_text_from_image :: "'e env \<Rightarrow> pystr \<Rightarrow> error + pystr" where
  "extract_text_from_image env image_path = ocr env image_path"

definition extract_text_from_txt :: "'e env \<Rightarrow> pystr \<Rightarrow> error + pystr" where
  "extract_text_from_txt env txt_path = open_read env txt_path UTF8"

text \<open>
  file\_processor.py, the upload processor's reader of text files:
  \<^verbatim>\<open>
  def _read_text_file(self, file_path: str) -> str:
      encodings = ['utf-8', 'latin-1', 'cp1252']
      for encoding in encodings:
          try:
              with open(file_path, 'r', encoding=encoding) as f:
                  content = f.read()
                  return f"File content:\n\n{content}"
          except UnicodeDecodeError:
              continue
      return "Could not decode file content. Binary file or unsupported encoding."
  \<close>
\<close>

fun try_encodings :: "'e env \<Rightarrow> pystr \<Rightarrow> encoding list \<Rightarrow> error + pystr" where
  "try_encodings env file_path [] =
     Inr (lit ''Could not decode file content. Binary file or unsupported encoding.'')"
| "try_encodings env file_path (enc # encs) =
     (case open_read env file_path enc of
        Inr content \<Rightarrow> Inr (lit ''File content:'' @ [10, 10] @ content)
      | Inl e \<Rightarrow> if e = UnicodeDecodeError then try_encodings env file_path encs else Inl e)"

definition read_text_file :: "'e env \<Rightarrow> pystr \<Rightarrow> error + pystr" where
  "read_text_file env file_path = try_encodings env file_path [UTF8, Latin1, CP1252]"

section \<open>The two stores\<close>

text \<open>
  The Chroma collection \<open>knowledge\<close> is the list of its records. \<open>collection.get()\<close>
  returns, under \<open>'metadatas'\<close>, the metadata of each record: a dictionary, or \<open>None\<close>
  for a record that was added without metadata. The graph database is its nodes, each
  with the identity the database gave it, and its \<open>CONTAINS\<close> relationships.
\<close>

type_synonym metadata = "(pystr \<times> pystr) list"

record 'e chroma_record =
  rec_id :: pystr
  rec_document :: pystr
  rec_embedding :: 'e
  rec_metadata :: "metadata option"

datatype node = File pystr | Chunk pystr pystr

record graph =
  nodes :: "(nat \<times> node) list"
  rels :: "(nat \<times> nat) list"
  next_node :: nat

text \<open>
  The state that the pipeline reads and writes: both stores, the lines printed, and the
  texts sent to the embedding service. \<open>print(line)\<close> writes the line, or raises when
  the stream cannot encode it.
\<close>

record 'e world =
  chroma :: "'e chroma_record list"
  neo4j :: graph
  stdout :: "pystr list"
  embedded :: "pystr list"

definition print :: "'e env \<Rightarrow> pystr \<Rightarrow> 'e world \<Rightarrow> (error + unit) \<times> 'e world" where
  "print env line w =
     (case stdout_error env line of
        None \<Rightarrow> (Inr (), w\<lparr>stdout := stdout w @ [line]\<rparr>)
      | Some e \<Rightarrow> (Inl e, w))"

text \<open>
  \<^verbatim>\<open>
  def embed_text(text):
      client = openai.OpenAI(api_key=OPENAI_API_KEY)
      resp = client.embeddings.create(input=[text], model="text-embedding-ada-002")
      return resp.data[0].embedding

  def add_to_chroma(doc_id, chunk, embedding):
      collection = chroma_client.get_or_create_collection('knowledge')
      collection.add(documents=[chunk], embeddings=[embedding], ids=[doc_id])
  \<close>
\<close>

definition embed_text :: "'e env \<Rightarrow> pystr \<Rightarrow> 'e world \<Rightarrow> (error + 'e) \<times> 'e world" where
  "embed_text env text w =
     (embeddings_create env (embedded w) text, w\<lparr>embedded := embedded w @ [text]\<rparr>)"

definition collection_add ::
  "'e env \<Rightarrow> pystr \<Rightarrow> 'e \<Rightarrow> pystr \<Rightarrow> 'e chroma_record list \<Rightarrow> error + 'e chroma_record list" where
  "collection_add env document embedding doc_id coll =
     (if doc_id \<in> set (map rec_id coll)
      then (case add_existing_id env of None \<Rightarrow> Inr coll | Some e \<Rightarrow> Inl e)
      else Inr (coll @ [\<lparr>rec_id = doc_id, rec_document = document, rec_embedding = embedding,
                         rec_metadata = None\<rparr>]))"

definition add_to_chroma ::
  "'e env \<Rightarrow> pystr \<Rightarrow> pystr \<Rightarrow> 'e \<Rightarrow> 'e world \<Rightarrow> (error + unit) \<times> 'e world" where
  "add_to_chroma env doc_id chunk embedding w =
     (case collection_add env chunk embedding doc_id (chroma w) of
        Inl e \<Rightarrow> (Inl e, w)
      | Inr coll \<Rightarrow> (Inr (), w\<lparr>chroma := coll\<rparr>))"

text \<open>
  \<^verbatim>\<open>
  def add_to_neo4j(file_id, chunk_id, chunk_text):
      with db.session() as session:
          session.run("MERGE (f:File {id: $file_id})", file_id=file_id)
          session.run("MERGE (c:Chunk {id: $chunk_id, text: $text})", ...)
          session.run("MATCH (f:File {id: $file_id}), (c:Chunk {id: $chunk_id})
                       MERGE (f)-[:CONTAINS]->(c)", ...)
  \<close>
  \<open>MERGE\<close> of a node creates it unless a node with that label and those properties
  exists; \<open>MERGE\<close> of a relationship, run for each matched pair, creates it unless the
  pair is already related.
\<close>

definition merge_node :: "node \<Rightarrow> graph \<Rightarrow> graph" where
  "merge_node x g =
     (if x \<in> set (map snd (nodes g)) then g
      else g\<lparr>nodes := nodes g @ [(next_node g, x)], next_node := Suc (next_node g)\<rparr>)"

fun is_chunk :: "pystr \<Rightarrow> node \<Rightarrow> bool" where
  "is_chunk chunk_id (Chunk i t) = (i = chunk_id)"
| "is_chunk chunk_id (File i) = False"

definition file_nodes :: "pystr \<Rightarrow> graph \<Rightarrow> nat list" where
  "file_nodes file_id g = map fst (filter (\<lambda>(n, x). x = File file_id) (nodes g))"

definition chunk_nodes :: "pystr \<Rightarrow> graph \<Rightarrow> nat list" where
  "chunk_nodes chunk_id g = map fst (filter (\<lambda>(n, x). is_chunk chunk_id x) (nodes g))"

definition merge_rel :: "nat \<times> nat \<Rightarrow> (nat \<times> nat) list \<Rightarrow> (nat \<times> nat) list" where
  "merge_rel r rs = (if r \<in> set rs then rs else rs @ [r])"

definition merge_contains :: "pystr \<Rightarrow> pystr \<Rightarrow> graph \<Rightarrow> graph" where
  "merge_contains file_id chunk_id g =
     g\<lparr>rels := fold merge_rel
                 (List.product (file_nodes file_id g) (chunk_nodes chunk_id g)) (rels g)\<rparr>"

definition detach_delete_file :: "pystr \<Rightarrow> graph \<Rightarrow> graph" where
  "detach_delete_file file_id g =
     g\<lparr>nodes := filter (\<lambda>(n, x). x \<noteq> File file_id) (nodes g),
       rels := filter (\<lambda>(a, b). a \<notin> set (file_nodes file_id g) \<and> b \<notin> set (file_nodes file_id g))
                 (rels g)\<rparr>"

definition add_to_neo4j :: "pystr \<Rightarrow> pystr \<Rightarrow> pystr \<Rightarrow> 'e world \<Rightarrow> 'e world" where
  "add_to_neo4j file_id chunk_id chunk w =
     w\<lparr>neo4j := merge_contains file_id chunk_id
                   (merge_node (Chunk chunk_id chunk) (merge_node (File file_id) (neo4j w)))\<rparr>"

section \<open>The file handler (\<open>KnowledgeBaseHandler\<close>, rag\_pipeline.py)\<close>

text \<open>
  \<^verbatim>\<open>
  def process_file(self, file_path):
      ext = os.path.splitext(file_path)[1].lower()
      file_id = os.path.basename(file_path)
      if ext == '.pdf':
          text = extract_text_from_pdf(file_path)
      elif ext in ['.jpg', '.jpeg', '.png', '.bmp', '.tiff']:
          text = extract_text_from_image(file_path)
      elif ext in ['.txt', '.md']:
          text = extract_text_from_txt(file_path)
      else:
          print(f"Unsupported file type: {file_path}")
          return
      chunks = chunk_text(text)
      for idx, chunk in enumerate(chunks):
          chunk_id = f"{file_id}_chunk_{idx}"
          embedding = embed_text(chunk)
          add_to_chroma(chunk_id, chunk, embedding)
          add_to_neo4j(file_id, chunk_id, chunk)
      print(f"Processed {file_path} with {len(chunks)} chunks.")
  \<close>
  No exception is caught: one raised by an extractor, by the embedding service, by the
  collection or by \<open>print\<close> ends the call, with the writes made so far in place.
  \<open>extract_text\<close> is the choice of the extractor, \<open>None\<close> for the \<open>else\<close> branch;
  \<open>process_file_loop\<close> is the \<open>for\<close> loop.
\<close>

definition image_extensions :: "pystr list" where
  "image_extensions = [lit ''.jpg'', lit ''.jpeg'', lit ''.png'', lit ''.bmp'', lit ''.tiff'']"

definition text_extensions :: "pystr list" where
  "text_extensions = [lit ''.txt'', lit ''.md'']"

definition file_ext :: "'e env \<Rightarrow> pystr \<Rightarrow> pystr" where
  "file_ext env file_path = py_lower env (splitext_ext file_path)"

definition extract_text :: "'e env \<Rightarrow> pystr \<Rightarrow> (error + pystr) option" where
  "extract_text env file_path =
     (let ext = file_ext env file_path in
      if ext = lit ''.pdf'' then Some (extract_text_from_pdf env file_path)
      else if ext \<in> set image_extensions then Some (extract_text_from_image env file_path)
      else if ext \<in> set text_extensions then Some (extract_text_from_txt env file_path)
      else None)"

definition make_chunk_id :: "pystr \<Rightarrow> nat \<Rightarrow> pystr" where
  "make_chunk_id file_id idx = file_id @ lit ''_chunk_'' @ str_nat idx"

fun process_file_loop ::
  "'e env \<Rightarrow> pystr \<Rightarrow> (nat \<times> pystr) list \<Rightarrow> 'e world \<Rightarrow> (error + unit) \<times> 'e world" where
  "process_file_loop env file_id [] w = (Inr (), w)"
| "process_file_loop env file_id ((idx, chunk) # rest) w =
     (case embed_text env chunk w of
        (Inl e, w1) \<Rightarrow> (Inl e, w1)
      | (Inr embedding, w1) \<Rightarrow>
          (case add_to_chroma env (make_chunk_id file_id idx) chunk embedding w1 of
             (Inl e, w2) \<Rightarrow> (Inl e, w2)
           | (Inr u, w2) \<Rightarrow>
               process_file_loop env file_id rest
                 (add_to_neo4j file_id (make_chunk_id file_id idx) chunk w2)))"

definition process_file :: "'e env \<Rightarrow> pystr \<Rightarrow> 'e world \<Rightarrow> (error + unit) \<times> 'e world" where
  "process_file env file_path w =
     (case extract_text env file_path of
        None \<Rightarrow> print env (lit ''Unsupported file type: '' @ file_path) w
      | Some (Inl e) \<Rightarrow> (Inl e, w)
      | Some (Inr text) \<Rightarrow>
          (case chunk_text text 500 50 of
             Inl e \<Rightarrow> (Inl e, w)
           | Inr chunks \<Rightarrow>
               (case process_file_loop env (basename file_path) (py_enumerate chunks) w of
                  (Inl e, w1) \<Rightarrow> (Inl e, w1)
                | (Inr u, w1) \<Rightarrow>
                    print env (lit ''Processed '' @ file_path @ lit '' with '' @
                               str_nat (length chunks) @ lit '' chunks.'') w1)))"

text \<open>
  \<^verbatim>\<open>
  def on_created(self, event):
      if not event.is_directory:
          self.process_file(event.src_path)

  def on_modified(self, event):
      if not event.is_directory:
          self.process_file(event.src_path)

  def on_deleted(self, event):
      if not event.is_directory:
          file_id = os.path.basename(event.src_path)
          # Remove from Chroma and Neo4j
          collection = chroma_client.get_or_create_collection('knowledge')
          ids_to_remove = [doc['id'] for doc in collection.get()['metadatas']
                           if doc['id'].startswith(file_id)]
          if ids_to_remove:
              collection.delete(ids=ids_to_remove)
          with db.session() as session:
              session.run("MATCH (f:File {id: $file_id}) DETACH DELETE f", file_id=file_id)
          print(f"Deleted {file_id} from vector and graph DB.")
  \<close>
  In the comprehension \<open>doc\<close> ranges over the metadata of the records: \<open>doc['id']\<close>
  raises \<open>TypeError\<close> when \<open>doc\<close> is \<open>None\<close> and \<open>KeyError\<close> when the dictionary has no
  key \<open>id\<close>.
\<close>

record event =
  is_directory :: bool
  src_path :: pystr

definition on_created :: "'e env \<Rightarrow> event \<Rightarrow> 'e world \<Rightarrow> (error + unit) \<times> 'e world" where
  "on_created env ev w =
     (if \<not> is_directory ev then process_file env (src_path ev) w else (Inr (), w))"

definition on_modified :: "'e env \<Rightarrow> event \<Rightarrow> 'e world \<Rightarrow> (error + unit) \<times> 'e world" where
  "on_modified env ev w =
     (if \<not> is_directory ev then process_file env (src_path ev) w else (Inr (), w))"

fun ids_to_remove :: "metadata option list \<Rightarrow> pystr \<Rightarrow> error + pystr list" where
  "ids_to_remove [] file_id = Inr []"
| "ids_to_remove (doc # docs) file_id =
     (case doc of
        None \<Rightarrow> Inl TypeError
      | Some d \<Rightarrow>
          (case map_of d (lit ''id'') of
             None \<Rightarrow> Inl KeyError
           | Some v \<Rightarrow>
               (case ids_to_remove docs file_id of
                  Inl e \<Rightarrow> Inl e
                | Inr ids \<Rightarrow> Inr (if startswith v file_id then v # ids else ids))))"

definition collection_delete :: "pystr list \<Rightarrow> 'e chroma_record list \<Rightarrow> 'e chroma_record list" where
  "collection_delete ids coll = filter (\<lambda>r. rec_id r \<notin> set ids) coll"

definition on_deleted :: "'e env \<Rightarrow> event \<Rightarrow> 'e world \<Rightarrow> (error + unit) \<times> 'e world" where
  "on_deleted env ev w =
     (if \<not> is_directory ev then
        (let file_id = basename (src_path ev) in
         case ids_to_remove (map rec_metadata (chroma w)) file_id of
           Inl e \<Rightarrow> (Inl e, w)
         | Inr ids \<Rightarrow>
             (let w1 = (if ids \<noteq> [] then w\<lparr>chroma := collection_delete ids (chroma w)\<rparr> else w);
                  w2 = w1\<lparr>neo4j := detach_delete_file file_id (neo4j w1)\<rparr>
              in print env (lit ''Deleted '' @ file_id @ lit '' from vector and graph DB.'') w2))
      else (Inr (), w))"

text \<open>
  The store queries of the specification: the ids of the vector store that start with a
  prefix, and whether the graph holds a \<open>File\<close> node of a file.
\<close>

definition ids_with_prefix :: "pystr \<Rightarrow> 'e world \<Rightarrow> pystr list" where
  "ids_with_prefix prefix w = filter (\<lambda>i. startswith i prefix) (map rec_id (chroma w))"

definition has_file_node :: "pystr \<Rightarrow> 'e world \<Rightarrow> bool" where
  "has_file_node file_id w \<longleftrightarrow> File file_id \<in> set (map snd (nodes (neo4j w)))"




text \<open>
  A run of the program: the calls that the watcher makes of the three handlers and that
  the scan loop of \<open>start_monitor\<close> makes of \<open>process_file\<close>, one after another, each in
  the surroundings of its time, from stores that are empty at the start. An exception
  ends the call that raised it; \<open>run\<close> goes on with the next call from the state
  reached, so that no state of a real run is left out.
\<close>

datatype 'e call =
    Created "'e env" event
  | Modified "'e env" event
  | Deleted "'e env" event
  | Scanned "'e env" pystr





section \<open>Concrete inputs\<close>

text \<open>
  An empty pair of stores, and surroundings with four files: \<open>doc1.txt\<close> holds the
  bytes of \<open>hello world\<close>; \<open>cafe.txt\<close> holds \<open>caf\<close> followed by the byte 0xE9 (the
  ISO-8859-1 encoding of U+00E9, not valid UTF-8); \<open>blank.txt\<close> holds two spaces and a
  line feed; \<open>big.txt\<close> holds 451 times the word \<open>w\<close>; \<open>doc1.txt.md\<close> holds the
  bytes of \<open>notes\<close>. The embedding of a text is its length, an id that the collection
  already holds is ignored by \<open>Collection.add\<close>, and standard output is a strict UTF-8
  stream: it cannot encode a line that holds a surrogate code point (U+D800..U+DFFF).
  In \<open>flaky_env n\<close> the embedding service fails on the call that follows \<open>n\<close> earlier
  calls.
\<close>

definition empty_world :: "nat world" where
  "empty_world =
     \<lparr>chroma = [], neo4j = \<lparr>nodes = [], rels = [], next_node = 0\<rparr>, stdout = [], embedded = []\<rparr>"

definition demo_files :: "(pystr \<times> bytes) list" where
  "demo_files =
     [(lit ''knowledge_base/doc1.txt'', ''hello world''),
      (lit ''knowledge_base/cafe.txt'', [CHR ''c'', CHR ''a'', CHR ''f'', CHR 0xE9]),
      (lit ''knowledge_base/blank.txt'', [CHR '' '', CHR '' '', CHR 0x0A]),
      (lit ''knowledge_base/big.txt'', concat (replicate 451 ''w '')),
      (lit ''knowledge_base/doc1.txt.md'', ''notes'')]"

text \<open>
  The path of a file named by the byte 0xFF and \<open>.exe\<close>, as \<open>os.listdir\<close> and the
  watcher deliver it: the byte that is not UTF-8 becomes the surrogate U+DCFF.
\<close>

definition escaped_path :: pystr where
  "escaped_path = lit ''knowledge_base/'' @ [56575] @ lit ''.exe''"

definition utf8_stdout_error :: "pystr \<Rightarrow> error option" where
  "utf8_stdout_error line =
     (if list_ex (\<lambda>c. 55296 \<le> c \<and> c \<le> 57343) line then Some UnicodeEncodeError else None)"

definition demo_env :: "nat env" where
  "demo_env =
     \<lparr>ucd_lower = (\<lambda>s. s),
      read_file = (\<lambda>p. case map_of demo_files p of
                          Some bs \<Rightarrow> Inr bs
                        | None \<Rightarrow> Inl (OtherError (lit ''FileNotFoundError''))),
      pdf_pages = (\<lambda>p. Inl (OtherError (lit ''FileNotFoundError''))),
      ocr = (\<lambda>p. Inl (OtherError (lit ''FileNotFoundError''))),
      embeddings_create = (\<lambda>sent text. Inr (length text)),
      add_existing_id = None,
      stdout_error = utf8_stdout_error\<rparr>"

definition flaky_env :: "nat \<Rightarrow> nat env" where
  "flaky_env n =
     demo_env\<lparr>embeddings_create :=
       (\<lambda>sent text. if length sent = n then Inl (OtherError (lit ''APIError''))
                     else Inr (length text))\<rparr>"

text \<open>A collection that holds one record of a chunk, with the document \<open>old\<close>.\<close>

definition old_world :: "nat world" where
  "old_world =
     empty_world\<lparr>chroma :=
       [\<lparr>rec_id = lit ''a.txt_chunk_0'', rec_document = lit ''old'', rec_embedding = 3,
         rec_metadata = None\<rparr>]\<rparr>"

text \<open>
  What a later pass over the same chunks finds when a chunk was stored before: its id is
  in the collection, and the graph holds the \<open>File\<close> node, the \<open>Chunk\<close> node with that
  text, and a relationship for every pair of a \<open>File\<close> node of the file and a \<open>Chunk\<close>
  node of the chunk id.
\<close>

definition graph_step :: "pystr \<Rightarrow> pystr \<Rightarrow> pystr \<Rightarrow> graph \<Rightarrow> graph" where
  "graph_step file_id chunk_id chunk g =
     merge_contains file_id chunk_id (merge_node (Chunk chunk_id chunk) (merge_node (File file_id) g))"

definition linked :: "pystr \<Rightarrow> pystr \<Rightarrow> pystr \<Rightarrow> graph \<Rightarrow> bool" where
  "linked file_id chunk_id chunk g \<longleftrightarrow>
     File file_id \<in> set (map snd (nodes g)) \<and>
     Chunk chunk_id chunk \<in> set (map snd (nodes g)) \<and>
     set (List.product (file_nodes file_id g) (chunk_nodes chunk_id g)) \<subseteq> set (rels g)"

definition stored :: "pystr \<Rightarrow> nat \<times> pystr \<Rightarrow> 'e world \<Rightarrow> bool" where
  "stored file_id item w \<longleftrightarrow>
     make_chunk_id file_id (fst item) \<in> set (map rec_id (chroma w)) \<and>
     linked file_id (make_chunk_id file_id (fst item)) (snd item) (neo4j w)"

text \<open>
  The text of \<open>big.txt\<close>, its first chunk (all 451 words; the second chunk is the last
  word alone), and the state in which the first chunk, and nothing else, has been
  stored from the empty stores.
\<close>

definition big_text :: pystr where
  "big_text = concat (replicate 451 [119, 32])"

definition big_chunk0 :: pystr where
  "big_chunk0 = join (lit '' '') (replicate 451 (lit ''w''))"


text \<open>The state after the whole of \<open>big.txt\<close> has been processed from the empty stores.\<close>

definition big_world2 :: "nat world" where
  "big_world2 =
     \<lparr>chroma = [\<lparr>rec_id = lit ''big.txt_chunk_0'', rec_document = big_chunk0,
                 rec_embedding = length big_chunk0, rec_metadata = None\<rparr>,
                \<lparr>rec_id = lit ''big.txt_chunk_1'', rec_document = lit ''w'',
                 rec_embedding = 1, rec_metadata = None\<rparr>],
      neo4j = \<lparr>nodes = [(0, File (lit ''big.txt'')), (1, Chunk (lit ''big.txt_chunk_0'') big_chunk0),
                        (2, Chunk (lit ''big.txt_chunk_1'') (lit ''w''))],
               rels = [(0, 1), (0, 2)], next_node = 3\<rparr>,
      stdout = [lit ''Processed knowledge_base/big.txt with 2 chunks.''],
      embedded = [big_chunk0, lit ''w'']\<rparr>"

text \<open>The state after \<open>doc1.txt\<close> has been processed from the empty stores.\<close>

definition doc1_world :: "nat world" where
  "doc1_world =
     \<lparr>chroma = [\<lparr>rec_id = lit ''doc1.txt_chunk_0'', rec_document = lit ''hello world'',
                 rec_embedding = 11, rec_metadata = None\<rparr>],
      neo4j = \<lparr>nodes = [(0, File (lit ''doc1.txt'')),
                        (1, Chunk (lit ''doc1.txt_chunk_0'') (lit ''hello world''))],
               rels = [(0, 1)], next_node = 2\<rparr>,
      stdout = [lit ''Processed knowledge_base/doc1.txt with 1 chunks.''],
      embedded = [lit ''hello world'']\<rparr>"


section \<open>Properties of the string operations\<close>

lemma lit_space: "lit '' '' = [32]" by (simp add: lit_def)
lemma isspace_32: "isspace 32" by (simp add: isspace_def)

lemma split_acc_words:
  "w \<in> set (split_acc cur s) \<Longrightarrow> \<forall>c\<in>set cur. \<not> isspace c \<Longrightarrow> w \<noteq> [] \<and> (\<forall>c\<in>set w. \<not> isspace c)"
  by (induction cur s rule: split_acc.induct) (auto split: if_splits)

lemma split_words: "w \<in> set (split s) \<Longrightarrow> w \<noteq> [] \<and> (\<forall>c\<in>set w. \<not> isspace c)"
  unfolding split_def using split_acc_words[of w "[]" s] by simp

lemma split_acc_nospace:
  "\<forall>c\<in>set w. \<not> isspace c \<Longrightarrow> split_acc cur (w @ s) = split_acc (cur @ w) s"
  by (induction w arbitrary: cur) auto

lemma split_acc_empty_iff: "split_acc cur s = [] \<longleftrightarrow> cur = [] \<and> (\<forall>c\<in>set s. isspace c)"
  by (induction cur s rule: split_acc.induct) auto

lemma split_empty_iff: "split s = [] \<longleftrightarrow> (\<forall>c\<in>set s. isspace c)"
  by (simp add: split_def split_acc_empty_iff)

lemma split_acc_word:
  "w \<noteq> [] \<Longrightarrow> \<forall>c\<in>set w. \<not> isspace c \<Longrightarrow> split_acc [] w = [w]"
  using split_acc_nospace[of w "[]" "[]"] by simp

lemma split_join_Cons:
  "\<forall>u\<in>set (w # ws). u \<noteq> [] \<and> (\<forall>c\<in>set u. \<not> isspace c) \<Longrightarrow>
     split_acc [] (join [32] (w # ws)) = w # ws"
proof (induction ws arbitrary: w)
  case Nil
  then show ?case by (simp add: split_acc_word)
next
  case (Cons v ws)
  have w: "w \<noteq> []" "\<forall>c\<in>set w. \<not> isspace c" using Cons.prems by auto
  have "split_acc [] (join [32] (w # v # ws)) = split_acc [] (w @ (32 # join [32] (v # ws)))"
    by simp
  also have "\<dots> = split_acc w (32 # join [32] (v # ws))"
    using w(2) split_acc_nospace[of w "[]" "32 # join [32] (v # ws)"] by simp
  also have "\<dots> = w # split_acc [] (join [32] (v # ws))"
    using w(1) by (simp add: isspace_32)
  also have "split_acc [] (join [32] (v # ws)) = v # ws"
    using Cons.prems by (intro Cons.IH) auto
  finally show ?case .
qed

lemma split_join:
  "\<forall>w\<in>set ws. w \<noteq> [] \<and> (\<forall>c\<in>set w. \<not> isspace c) \<Longrightarrow> split (join [32] ws) = ws"
proof (cases ws)
  case Nil
  then show ?thesis by (simp add: split_def)
next
  case (Cons w ws')
  assume "\<forall>w\<in>set ws. w \<noteq> [] \<and> (\<forall>c\<in>set w. \<not> isspace c)"
  with Cons show ?thesis using split_join_Cons[of w ws'] by (simp add: split_def)
qed

lemma join_eq_Nil: "\<forall>w\<in>set ws. w \<noteq> [] \<Longrightarrow> join sep ws = [] \<longleftrightarrow> ws = []"
  by (induction sep ws rule: join.induct) auto

lemma range_up_set:
  "0 < step \<Longrightarrow> i \<in> set (range_up start stop step) \<longleftrightarrow> start \<le> i \<and> i < stop \<and> (i - start) mod step = 0"
proof (induction start stop step rule: range_up.induct)
  case (1 start stop step)
  show ?case
  proof (cases "start < stop")
    case False
    then show ?thesis by (simp add: range_up.simps[of start stop step])
  next
    case True
    have *: "start + step \<le> i" if "(i - start) mod step = 0" "i \<noteq> start" "start \<le> i"
    proof -
      have "step dvd (i - start)" using that(1) by (simp add: dvd_eq_mod_eq_0)
      moreover have "0 < i - start" using that by simp
      ultimately have "step \<le> i - start" by (rule zdvd_imp_le)
      then show ?thesis by simp
    qed
    have "i - (start + step) = (i - start) - step" by simp
    then have **: "(i - (start + step)) mod step = (i - start) mod step"
      by (simp only: minus_mod_self2)
    have IH: "i \<in> set (range_up (start + step) stop step) \<longleftrightarrow>
               start + step \<le> i \<and> i < stop \<and> (i - start) mod step = 0"
      using 1 True ** by simp
    have "i \<in> set (range_up start stop step) \<longleftrightarrow> i = start \<or> i \<in> set (range_up (start + step) stop step)"
      using True "1.prems" by (simp add: range_up.simps[of start stop step])
    also have "\<dots> \<longleftrightarrow> start \<le> i \<and> i < stop \<and> (i - start) mod step = 0"
      using IH * True "1.prems" by auto
    finally show ?thesis .
  qed
qed

lemma range_up_length:
  "0 < step \<Longrightarrow> length (range_up start stop step) = nat ((stop - start + step - 1) div step)"
proof (induction start stop step rule: range_up.induct)
  case (1 start stop step)
  show ?case
  proof (cases "start < stop")
    case False
    have "(stop - start + step - 1) div step \<le> (step - 1) div step"
      using False "1.prems" by (intro zdiv_mono1) auto
    then have "(stop - start + step - 1) div step \<le> 0"
      using "1.prems" by (simp add: div_pos_pos_trivial)
    with False show ?thesis by (simp add: range_up.simps[of start stop step])
  next
    case True
    define a where "a = stop - (start + step) + step - 1"
    have e: "stop - start + step - 1 = a + step" by (simp add: a_def)
    have "step \<noteq> 0" using "1.prems" by simp
    then have "(a + step) div step = a div step + 1"
      by (rule div_add_self2)
    then have "(stop - start + step - 1) div step = a div step + 1"
      by (simp only: e)
    moreover have "0 \<le> a div step"
      using True "1.prems" by (simp add: pos_imp_zdiv_nonneg_iff a_def)
    moreover have "length (range_up (start + step) stop step) = nat (a div step)"
      using 1 True by (simp add: a_def)
    ultimately show ?thesis using True "1.prems"
      by (simp add: range_up.simps[of start stop step] nat_add_distrib)
  qed
qed

lemma ceil_div_pos: "0 < b \<Longrightarrow> ceil_div a b = (a + b - 1) div b"
proof -
  assume b: "0 < b"
  define q r where "q = (- a) div b" and "r = (- a) mod b"
  have r: "0 \<le> r" "r < b" using b by (simp_all add: r_def)
  have "- a = q * b + r" by (simp add: q_def r_def)
  then have e: "a + b - 1 = (b - 1 - r) + (- q) * b" by (simp add: algebra_simps)
  have "(b - 1 - r) div b = 0" using r by (intro div_pos_pos_trivial) auto
  moreover have "((b - 1 - r) + (- q) * b) div b = (- q) + (b - 1 - r) div b"
    using b by (intro div_mult_self1) auto
  ultimately have "(a + b - 1) div b = - q" by (simp only: e)
  then show ?thesis by (simp add: ceil_div_def q_def)
qed

lemma py_slice_nonneg:
  "0 \<le> i \<Longrightarrow> 0 \<le> j \<Longrightarrow>
   py_slice xs i j = take (nat (min j (int (length xs)) - min i (int (length xs)))) (drop (nat (min i (int (length xs)))) xs)"
  by (simp add: py_slice_def Let_def)

lemma py_slice_window:
  assumes "0 \<le> i" "i < int (length xs)" "0 < k"
  shows "py_slice xs i (i + k) = take (nat k) (drop (nat i) xs)"
proof -
  have "py_slice xs i (i + k) = take (nat (min (i + k) (int (length xs)) - i)) (drop (nat i) xs)"
    using assms by (simp add: py_slice_nonneg min_def)
  also have "\<dots> = take (nat k) (drop (nat i) xs)"
    using assms by (simp add: min_def)
  finally show ?thesis .
qed

lemma window_nonempty:
  assumes "0 \<le> i" "i < int (length ws)" "0 < k" "\<forall>w\<in>set ws. w \<noteq> []"
  shows "window ws k i \<noteq> []"
proof -
  have "take (nat k) (drop (nat i) ws) \<noteq> []" using assms by simp
  moreover have "\<forall>w\<in>set (take (nat k) (drop (nat i) ws)). w \<noteq> []"
    using assms(4) by (meson in_set_dropD in_set_takeD)
  ultimately show ?thesis
    using assms by (simp add: window_def py_slice_window join_eq_Nil del: take_eq_Nil)
qed

lemma chunk_text_pos:
  assumes "overlap < chunk_size"
  shows "chunk_text text chunk_size overlap =
    Inr (filter (\<lambda>chunk. chunk \<noteq> [])
         (map (window (split text) chunk_size) (range_up 0 (int (length (split text))) (chunk_size - overlap))))"
  using assms by (simp add: chunk_text_def py_range_def Let_def)

lemma chunk_text_all_windows:
  assumes "overlap < chunk_size" "0 < chunk_size"
  shows "chunk_text text chunk_size overlap =
    Inr (map (window (split text) chunk_size) (range_up 0 (int (length (split text))) (chunk_size - overlap)))"
proof -
  have "\<forall>i\<in>set (range_up 0 (int (length (split text))) (chunk_size - overlap)).
          window (split text) chunk_size i \<noteq> []"
  proof
    fix i assume "i \<in> set (range_up 0 (int (length (split text))) (chunk_size - overlap))"
    then have "0 \<le> i" "i < int (length (split text))"
      using assms(1) by (simp_all add: range_up_set)
    moreover have "\<forall>w\<in>set (split text). w \<noteq> []" using split_words by blast
    ultimately show "window (split text) chunk_size i \<noteq> []"
      using assms(2) by (intro window_nonempty)
  qed
  then have "filter (\<lambda>chunk. chunk \<noteq> [])
         (map (window (split text) chunk_size) (range_up 0 (int (length (split text))) (chunk_size - overlap)))
       = map (window (split text) chunk_size) (range_up 0 (int (length (split text))) (chunk_size - overlap))"
    by (simp add: filter_id_conv)
  then show ?thesis using assms(1) by (simp add: chunk_text_pos)
qed

lemma chunk_text_count:
  assumes "overlap < chunk_size" "0 < chunk_size"
  shows "\<exists>cs. chunk_text text chunk_size overlap = Inr cs \<and>
           int (length cs) = ceil_div (int (length (split text))) (chunk_size - overlap)"
proof -
  let ?n = "int (length (split text))" and ?s = "chunk_size - overlap"
  have "0 \<le> (?n + ?s - 1) div ?s" using assms by (simp add: pos_imp_zdiv_nonneg_iff)
  then show ?thesis
    using assms by (simp add: chunk_text_all_windows range_up_length ceil_div_pos)
qed

lemma in_set_take_drop:
  assumes "i \<le> j" "j < length xs" "j < i + k"
  shows "xs ! j \<in> set (take k (drop i xs))"
proof -
  have "take k (drop i xs) ! (j - i) = xs ! j" using assms by simp
  moreover have "j - i < length (take k (drop i xs))" using assms by (simp; arith)
  ultimately show ?thesis by (metis nth_mem)
qed

lemma chunk_text_covers:
  assumes "0 \<le> overlap" "overlap < chunk_size" "w \<in> set (split text)"
  shows "\<exists>c\<in>set (map (window (split text) chunk_size)
                    (range_up 0 (int (length (split text))) (chunk_size - overlap))).
           w \<in> set (split c)"
proof -
  let ?ws = "split text" and ?s = "chunk_size - overlap"
  obtain j where j: "j < length ?ws" "?ws ! j = w"
    using assms(3) by (auto simp: in_set_conv_nth)
  define i where "i = (int j div ?s) * ?s"
  have s: "0 < ?s" "?s \<le> chunk_size" "0 < chunk_size" using assms by auto
  have i0: "0 \<le> i" using s(1) by (simp add: i_def pos_imp_zdiv_nonneg_iff)
  have ij: "int j - i = int j mod ?s" by (simp add: i_def minus_div_mult_eq_mod)
  have ile: "i \<le> int j" using ij s(1) pos_mod_sign[of ?s "int j"] by linarith
  have jlt: "int j < i + chunk_size"
    using ij s pos_mod_bound[of ?s "int j"] by linarith
  have "i mod ?s = 0" by (simp add: i_def)
  then have irange: "i \<in> set (range_up 0 (int (length ?ws)) ?s)"
    using s(1) i0 ile j(1) by (simp add: range_up_set)
  have slice: "py_slice ?ws i (i + chunk_size) = take (nat chunk_size) (drop (nat i) ?ws)"
    using i0 ile j(1) s(3) by (intro py_slice_window) auto
  have "w \<in> set (take (nat chunk_size) (drop (nat i) ?ws))"
    using in_set_take_drop[of "nat i" j ?ws "nat chunk_size"] i0 ile jlt j by auto
  moreover have "\<forall>u\<in>set (take (nat chunk_size) (drop (nat i) ?ws)). u \<noteq> [] \<and> (\<forall>c\<in>set u. \<not> isspace c)"
    using split_words by (meson in_set_dropD in_set_takeD)
  then have "split (window ?ws chunk_size i) = take (nat chunk_size) (drop (nat i) ?ws)"
    by (simp add: window_def slice lit_space split_join)
  ultimately have "w \<in> set (split (window ?ws chunk_size i))" by simp
  with irange show ?thesis by auto
qed

lemma enumerate_from_fst: "map fst (enumerate_from n xs) = [n..<n + length xs]"
  by (induction xs arbitrary: n) (auto simp: upt_rec)

lemma py_enumerate_fst: "map fst (py_enumerate xs) = [0..<length xs]"
  by (simp add: py_enumerate_def enumerate_from_fst)

section \<open>Properties of the chunker\<close>

text \<open>
  C2, as the code has it: for every text, \<open>chunk_text\<close> with the default size 500 and
  overlap 50 returns without an exception, and the number of chunks is
  \<open>ceil(W / (size - overlap))\<close>, that is \<open>ceil(W / 450)\<close>, where \<open>W\<close> is the number of
  words of the whitespace tokenization (0 chunks for \<open>W = 0\<close>).
\<close>

theorem chunk_count_default:
  "\<exists>cs. chunk_text text 500 50 = Inr cs \<and>
     int (length cs) = ceil_div (int (length (split text))) (500 - 50)"
  using chunk_text_count[of 50 500 "text"] by simp

text \<open>
  C2, as the specification states it, fails for a text of one word: the code returns one
  chunk, and \<open>ceil(max(1 - 50, 0) / (500 - 50))\<close> is 0.
\<close>

theorem chunk_count_spec_formula_counterexample:
  "0 < length (split (lit ''hello'')) \<and>
   chunk_text (lit ''hello'') 500 50 = Inr [lit ''hello''] \<and>
   int (length [lit ''hello'']) \<noteq> spec_chunk_count (int (length (split (lit ''hello'')))) 500 50"
proof -
  have s: "split (lit ''hello'') = [lit ''hello'']"
    by (simp add: split_def lit_def isspace_def)
  have r: "range_up 0 1 450 = [0]"
    by (simp add: range_up.simps)
  have n: "lit ''hello'' \<noteq> []"
    by (simp add: lit_def)
  have c: "chunk_text (lit ''hello'') 500 50 = Inr [lit ''hello'']"
    by (simp add: chunk_text_def s r n py_range_def window_def py_slice_def)
  show ?thesis
    by (simp add: c s spec_chunk_count_def ceil_div_def)
qed

text \<open>
  C7, as the code has it: \<open>chunk_text\<close> does not validate its configuration. With
  \<open>overlap = chunk_size\<close> every call raises \<open>ValueError\<close> (the zero step of \<open>range\<close>),
  when the text is chunked; with \<open>overlap > chunk_size\<close> every call returns the empty
  sequence and raises nothing.
\<close>

theorem chunk_text_unvalidated_config:
  "(chunk_size = overlap \<longrightarrow> chunk_text text chunk_size overlap = Inl ValueError) \<and>
   (chunk_size < overlap \<longrightarrow> chunk_text text chunk_size overlap = Inr [])"
proof -
  have "range_down 0 (int n) step = []" for n step
    by (simp add: range_down.simps[of 0 "int n" step])
  then show ?thesis by (simp add: chunk_text_def py_range_def Let_def)
qed

text \<open>C7: the theorem at the configurations (5, 5) and (5, 10).\<close>

theorem chunk_text_unvalidated_config_witness:
  "(5::int) = 5 \<and> chunk_text (lit ''a b c'') 5 5 = Inl ValueError \<and>
   (5::int) < 10 \<and> chunk_text (lit ''a b c'') 5 10 = Inr []"
  using chunk_text_unvalidated_config[of 5 5 "lit ''a b c''"]
        chunk_text_unvalidated_config[of 5 10 "lit ''a b c''"] by simp

text \<open>
  C7, as the specification states it, fails: the configuration with size 50 and overlap
  500 is not rejected. The call returns normally, with no chunk.
\<close>

theorem config_rejection_counterexample:
  "(50::int) - 500 \<le> 0 \<and> chunk_text (lit ''a b c'') 50 500 = Inr []"
proof -
  have r: "range_down 0 n (- 450) = []" if "0 \<le> n" for n
    using that by (simp add: range_down.simps)
  show ?thesis by (simp add: chunk_text_def r py_range_def)
qed

text \<open>
  C10: for every text and every \<open>chunk_size > overlap \<ge> 0\<close>, \<open>chunk_text\<close> returns
  chunks such that every word of the whitespace tokenization of the text is a word of at
  least one chunk, and the ordinals that \<open>enumerate\<close> gives the chunks are
  \<open>0, 1, \<dots>, n - 1\<close>.
\<close>

theorem chunk_text_covers_every_word:
  assumes "0 \<le> overlap" "overlap < chunk_size"
  shows "\<exists>cs. chunk_text text chunk_size overlap = Inr cs \<and>
           (\<forall>w\<in>set (split text). \<exists>c\<in>set cs. w \<in> set (split c)) \<and>
           map fst (py_enumerate cs) = [0..<length cs]"
  using assms chunk_text_covers[OF assms]
  by (simp add: chunk_text_all_windows py_enumerate_fst)

text \<open>C10: the theorem at a text of five words, chunked with size 3 and overlap 1.\<close>

theorem chunk_text_covers_every_word_witness:
  "(0::int) \<le> 1 \<and> (1::int) < 3 \<and>
   chunk_text (lit ''a b  c d e'') 3 1 = Inr [lit ''a b c'', lit ''c d e'', lit ''e''] \<and>
   list_all (\<lambda>w. list_ex (\<lambda>c. w \<in> set (split c)) [lit ''a b c'', lit ''c d e'', lit ''e''])
     (split (lit ''a b  c d e'')) \<and>
   map fst (py_enumerate [lit ''a b c'', lit ''c d e'', lit ''e'']) = [0, 1, 2]"
proof -
  have s: "split (lit ''a b  c d e'') = [lit ''a'', lit ''b'', lit ''c'', lit ''d'', lit ''e'']"
    by (simp add: split_def lit_def isspace_def)
  have r: "range_up 0 5 2 = [0, 2, 4]"
    by (simp add: range_up.simps)
  have c: "chunk_text (lit ''a b  c d e'') 3 1 = Inr [lit ''a b c'', lit ''c d e'', lit ''e'']"
    by (simp add: chunk_text_def s r py_range_def window_def py_slice_def) (simp add: lit_def)
  have e: "map fst (py_enumerate [lit ''a b c'', lit ''c d e'', lit ''e'']) = [0, 1, 2]"
    by (simp add: py_enumerate_def)
  show ?thesis
    using chunk_text_covers_every_word[of 1 3 "lit ''a b  c d e''"] c e
    by (simp add: list_all_iff list_ex_iff)
qed

section \<open>Properties of the file handler\<close>

lemma str_nat_0: "str_nat 0 = lit ''0''"
  by (simp add: str_nat.simps lit_def)

lemma chunk_text_empty: "split text = [] \<Longrightarrow> chunk_text text 500 50 = Inr []"
  by (simp add: chunk_text_def py_range_def range_up.simps[of 0 0])

lemma print_result:
  "print env line w =
     (case stdout_error env line of
        None \<Rightarrow> (Inr (), w\<lparr>stdout := stdout w @ [line]\<rparr>)
      | Some e \<Rightarrow> (Inl e, w))"
  by (simp add: print_def)

lemma print_stores:
  "chroma (snd (print env l w)) = chroma w" "neo4j (snd (print env l w)) = neo4j w"
  "embedded (snd (print env l w)) = embedded w"
  by (simp_all add: print_def split: option.splits)

lemma print_Inr: "print env l w = (Inr u, w1) \<Longrightarrow> w1 = w\<lparr>stdout := stdout w @ [l]\<rparr>"
  by (auto simp: print_def split: option.splits)

lemma utf8_stdout_ascii: "list_all (\<lambda>c. c < 128) l \<Longrightarrow> utf8_stdout_error l = None"
  by (induction l) (auto simp: utf8_stdout_error_def)

lemma process_file_unsupported:
  assumes "file_ext env file_path \<notin> set ([lit ''.pdf''] @ image_extensions @ text_extensions)"
  shows "process_file env file_path w = print env (lit ''Unsupported file type: '' @ file_path) w"
proof -
  have "extract_text env file_path = None"
    using assms by (simp add: extract_text_def Let_def)
  then show ?thesis by (simp add: process_file_def)
qed

text \<open>
  C8, as the code has it: when the lower-cased extension of the path is none of \<open>.pdf\<close>,
  \<open>.jpg\<close>, \<open>.jpeg\<close>, \<open>.png\<close>, \<open>.bmp\<close>, \<open>.tiff\<close>, \<open>.txt\<close>, \<open>.md\<close>, \<open>process_file\<close> makes no
  chunk, sends nothing to the embedding service and writes to neither store; all it
  does is \<open>print\<close> the line \<open>Unsupported file type: <path>\<close>. When standard output can
  encode that line the call returns normally with the line printed; when it cannot, the
  exception of \<open>print\<close> leaves \<open>process_file\<close> and the handlers \<open>on_created\<close> and
  \<open>on_modified\<close>, which the watcher thread calls, with the state as it was.
\<close>

theorem unsupported_file_is_skipped:
  assumes "file_ext env file_path \<notin> set ([lit ''.pdf''] @ image_extensions @ text_extensions)"
  shows "process_file env file_path w =
           (case stdout_error env (lit ''Unsupported file type: '' @ file_path) of
              None \<Rightarrow> (Inr (), w\<lparr>stdout := stdout w @ [lit ''Unsupported file type: '' @ file_path]\<rparr>)
            | Some e \<Rightarrow> (Inl e, w)) \<and>
         on_created env \<lparr>is_directory = False, src_path = file_path\<rparr> w =
           process_file env file_path w \<and>
         on_modified env \<lparr>is_directory = False, src_path = file_path\<rparr> w =
           process_file env file_path w"
  using process_file_unsupported[OF assms]
  by (simp add: print_result on_created_def on_modified_def)

lemma file_ext_exe: "file_ext demo_env (lit ''knowledge_base/doc1.exe'') = lit ''.exe''"
  by (simp add: file_ext_def splitext_ext_def basename_def py_lower_def ascii_lower_def lit_def demo_env_def)

lemma exe_unsupported: "lit ''.exe'' \<notin> set ([lit ''.pdf''] @ image_extensions @ text_extensions)"
  by (simp add: image_extensions_def text_extensions_def lit_def)

lemma demo_stdout: "stdout_error demo_env = utf8_stdout_error"
  by (simp add: demo_env_def)

text \<open>C8: the theorem at the file \<open>knowledge_base/doc1.exe\<close> and the empty stores.\<close>

theorem unsupported_file_is_skipped_witness:
  "file_ext demo_env (lit ''knowledge_base/doc1.exe'')
     \<notin> set ([lit ''.pdf''] @ image_extensions @ text_extensions) \<and>
   process_file demo_env (lit ''knowledge_base/doc1.exe'') empty_world =
     (Inr (), empty_world\<lparr>stdout := [lit ''Unsupported file type: knowledge_base/doc1.exe'']\<rparr>) \<and>
   on_created demo_env \<lparr>is_directory = False, src_path = lit ''knowledge_base/doc1.exe''\<rparr> empty_world =
     process_file demo_env (lit ''knowledge_base/doc1.exe'') empty_world"
proof -
  have n: "file_ext demo_env (lit ''knowledge_base/doc1.exe'')
     \<notin> set ([lit ''.pdf''] @ image_extensions @ text_extensions)"
    unfolding file_ext_exe by (rule exe_unsupported)
  have l: "lit ''Unsupported file type: '' @ lit ''knowledge_base/doc1.exe'' = lit ''Unsupported file type: knowledge_base/doc1.exe''"
    by (simp add: lit_def)
  have o: "stdout_error demo_env (lit ''Unsupported file type: knowledge_base/doc1.exe'') = None"
    by (simp add: demo_stdout utf8_stdout_ascii lit_def)
  have e: "stdout empty_world = []" by (simp add: empty_world_def)
  show ?thesis
    using unsupported_file_is_skipped[OF n, of empty_world] n by (simp add: l o e)
qed

text \<open>
  C8, as the specification states it, fails for a file whose name the file system
  delivers with a surrogate escape (the byte 0xFF, U+DCFF) when standard output is a
  strict UTF-8 stream: the extension \<open>.exe\<close> is unsupported, \<open>print\<close> cannot encode the
  line, and \<open>process_file\<close> and \<open>on_created\<close> raise \<open>UnicodeEncodeError\<close>.
\<close>

theorem unsupported_file_raises_counterexample:
  "file_ext demo_env escaped_path \<notin> set ([lit ''.pdf''] @ image_extensions @ text_extensions) \<and>
   process_file demo_env escaped_path empty_world = (Inl UnicodeEncodeError, empty_world) \<and>
   on_created demo_env \<lparr>is_directory = False, src_path = escaped_path\<rparr> empty_world =
     (Inl UnicodeEncodeError, empty_world)"
proof -
  have x: "file_ext demo_env escaped_path = lit ''.exe''"
    by (simp add: file_ext_def splitext_ext_def basename_def py_lower_def ascii_lower_def lit_def
        demo_env_def escaped_path_def)
  have n: "file_ext demo_env escaped_path
     \<notin> set ([lit ''.pdf''] @ image_extensions @ text_extensions)"
    unfolding x by (rule exe_unsupported)
  have o: "stdout_error demo_env (lit ''Unsupported file type: '' @ escaped_path)
             = Some UnicodeEncodeError"
    by (simp add: demo_stdout utf8_stdout_error_def escaped_path_def)
  have p: "process_file demo_env escaped_path empty_world = (Inl UnicodeEncodeError, empty_world)"
    by (simp add: process_file_unsupported[OF n] print_result o)
  show ?thesis using n p by (simp add: on_created_def)
qed

text \<open>
  C9: when the whitespace tokenization of a text is empty (by \<open>split_empty_iff\<close>: the
  text is empty or holds whitespace only), \<open>chunk_text\<close> with the default configuration
  returns the empty sequence, and \<open>process_file\<close> of a file whose extraction gives that
  text leaves both stores and the list of embedded texts as they were: no embedding call
  and no store write. All it does is \<open>print\<close> that 0 chunks were processed.
\<close>

theorem empty_tokenization_no_work:
  assumes "split text = []" "extract_text env file_path = Some (Inr text)"
  shows "chunk_text text 500 50 = Inr [] \<and>
         process_file env file_path w =
           (case stdout_error env (lit ''Processed '' @ file_path @ lit '' with 0 chunks.'') of
              None \<Rightarrow> (Inr (), w\<lparr>stdout := stdout w @
                                    [lit ''Processed '' @ file_path @ lit '' with 0 chunks.'']\<rparr>)
            | Some e \<Rightarrow> (Inl e, w)) \<and>
         embedded (snd (process_file env file_path w)) = embedded w \<and>
         chroma (snd (process_file env file_path w)) = chroma w \<and>
         neo4j (snd (process_file env file_path w)) = neo4j w"
proof -
  have l: "lit ''Processed '' @ file_path @ lit '' with '' @ lit ''0'' @ lit '' chunks.'' =
           lit ''Processed '' @ file_path @ lit '' with 0 chunks.''"
    by (simp add: lit_def)
  have p: "process_file env file_path w =
             print env (lit ''Processed '' @ file_path @ lit '' with 0 chunks.'') w"
    using assms by (simp add: chunk_text_empty process_file_def py_enumerate_def str_nat_0 l)
  show ?thesis
    using assms(1) by (simp add: chunk_text_empty p print_stores) (simp add: print_result)
qed

lemma extract_text_txt:
  "file_ext env p = lit ''.txt'' \<Longrightarrow> extract_text env p = Some (extract_text_from_txt env p)"
  by (simp add: extract_text_def image_extensions_def text_extensions_def lit_def)

lemma blank_read: "extract_text demo_env (lit ''knowledge_base/blank.txt'') = Some (Inr [32, 32, 10])"
proof -
  have x: "file_ext demo_env (lit ''knowledge_base/blank.txt'') = lit ''.txt''"
    by (simp add: file_ext_def splitext_ext_def basename_def py_lower_def ascii_lower_def lit_def demo_env_def)
  have r: "read_file demo_env (lit ''knowledge_base/blank.txt'') = Inr [CHR '' '', CHR '' '', CHR 0x0A]"
    by (simp add: demo_env_def demo_files_def lit_def)
  have t: "extract_text_from_txt demo_env (lit ''knowledge_base/blank.txt'') = Inr [32, 32, 10]"
    by (simp add: extract_text_from_txt_def open_read_def r)
  show ?thesis
    by (simp add: extract_text_txt[OF x] t)
qed

text \<open>C9: the theorem at the file \<open>knowledge_base/blank.txt\<close> and the empty stores.\<close>

theorem empty_tokenization_no_work_witness:
  "split [32, 32, 10] = [] \<and>
   extract_text demo_env (lit ''knowledge_base/blank.txt'') = Some (Inr [32, 32, 10]) \<and>
   chunk_text [32, 32, 10] 500 50 = Inr [] \<and>
   process_file demo_env (lit ''knowledge_base/blank.txt'') empty_world =
     (Inr (), empty_world\<lparr>stdout := [lit ''Processed knowledge_base/blank.txt with 0 chunks.'']\<rparr>) \<and>
   embedded (snd (process_file demo_env (lit ''knowledge_base/blank.txt'') empty_world)) = [] \<and>
   chroma (snd (process_file demo_env (lit ''knowledge_base/blank.txt'') empty_world)) = []"
proof -
  have s: "split [32, 32, 10] = []" by (simp add: split_def isspace_def)
  have l: "lit ''Processed '' @ lit ''knowledge_base/blank.txt'' @ lit '' with 0 chunks.'' = lit ''Processed knowledge_base/blank.txt with 0 chunks.''"
    by (simp add: lit_def)
  have o: "stdout_error demo_env (lit ''Processed knowledge_base/blank.txt with 0 chunks.'') = None"
    by (simp add: demo_stdout utf8_stdout_ascii lit_def)
  have e: "stdout empty_world = []" "embedded empty_world = []" "chroma empty_world = []"
    by (simp_all add: empty_world_def)
  show ?thesis
    using empty_tokenization_no_work[OF s blank_read, of empty_world] s blank_read
    by (simp add: l o e)
qed

lemma utf8_decode_ascii: "list_all (\<lambda>b. b < 128) bs \<Longrightarrow> utf8_decode bs = Some bs"
  by (induction bs) auto

lemma universal_newlines_id: "13 \<notin> set t \<Longrightarrow> universal_newlines t = t"
  by (induction t rule: universal_newlines.induct) auto






lemma big_bytes: "map of_char (concat (replicate n ''w '')) = concat (replicate n [119, 32 :: nat])"
  by (induction n) auto

lemma big_split: "split_acc [] (concat (replicate n [119, 32])) = replicate n [119]"
  by (induction n) (auto simp: isspace_def)

lemma big_extract: "extract_text env' (lit ''knowledge_base/big.txt'') = Some (Inr big_text)"
  if "read_file env' = read_file demo_env" "ucd_lower env' = ucd_lower demo_env" for env' :: "nat env"
proof -
  have x: "file_ext env' (lit ''knowledge_base/big.txt'') = lit ''.txt''"
    by (simp add: file_ext_def splitext_ext_def basename_def py_lower_def ascii_lower_def lit_def)
  have r: "read_file env' (lit ''knowledge_base/big.txt'') = Inr (concat (replicate 451 ''w ''))"
    by (simp add: that demo_env_def demo_files_def lit_def)
  have a: "list_all (\<lambda>b. b < 128) (concat (replicate n [119, 32 :: nat]))" for n
    by (induction n) auto
  have b: "13 \<notin> set (concat (replicate n [119, 32 :: nat]))" for n
    by (induction n) auto
  have t: "extract_text_from_txt env' (lit ''knowledge_base/big.txt'') = Inr big_text"
    by (simp add: extract_text_from_txt_def open_read_def r big_bytes utf8_decode_ascii a
        universal_newlines_id b big_text_def)
  show ?thesis by (simp add: extract_text_txt[OF x] t)
qed

lemma big_chunks: "chunk_text big_text 500 50 = Inr [big_chunk0, lit ''w'']"
proof -
  have s: "split big_text = replicate 451 (lit ''w'')"
    by (simp add: split_def big_text_def big_split lit_def)
  have r: "range_up 0 451 450 = [0, 450]"
    by (simp add: range_up.simps)
  have "chunk_text big_text 500 50 =
          Inr (map (window (split big_text) 500) (range_up 0 (int (length (split big_text))) (500 - 50)))"
    by (rule chunk_text_all_windows) simp_all
  then show ?thesis
    by (simp add: s r window_def py_slice_def big_chunk0_def)
qed

lemma big_basename: "basename (lit ''knowledge_base/big.txt'') = lit ''big.txt''"
  by (simp add: basename_def lit_def)

lemma big_id0: "make_chunk_id (lit ''big.txt'') 0 = lit ''big.txt_chunk_0''"
  by (simp add: make_chunk_id_def str_nat.simps lit_def)




section \<open>Properties of the stores and of re-ingestion\<close>

lemma set_fold_merge_rel: "set (fold merge_rel ps rs) = set ps \<union> set rs"
  by (induction ps arbitrary: rs) (auto simp: merge_rel_def)

lemma fold_merge_rel_id: "set ps \<subseteq> set rs \<Longrightarrow> fold merge_rel ps rs = rs"
  by (induction ps arbitrary: rs) (auto simp: merge_rel_def)

lemma distinct_fold_merge_rel: "distinct rs \<Longrightarrow> distinct (fold merge_rel ps rs)"
  by (induction ps arbitrary: rs) (auto simp: merge_rel_def)

lemma merge_node_id: "x \<in> set (map snd (nodes g)) \<Longrightarrow> merge_node x g = g"
  by (simp add: merge_node_def)

lemma merge_node_mem: "x \<in> set (map snd (nodes (merge_node x g)))"
  by (simp add: merge_node_def)

lemma merge_node_mono: "y \<in> set (map snd (nodes g)) \<Longrightarrow> y \<in> set (map snd (nodes (merge_node x g)))"
  by (simp add: merge_node_def)

lemma merge_node_rels: "rels (merge_node x g) = rels g"
  by (simp add: merge_node_def)

lemma file_nodes_merge_chunk: "file_nodes f (merge_node (Chunk c t) g) = file_nodes f g"
  by (simp add: merge_node_def file_nodes_def)

lemma chunk_nodes_merge_other: "c \<noteq> c' \<Longrightarrow> chunk_nodes c (merge_node (Chunk c' t') g) = chunk_nodes c g"
  by (simp add: merge_node_def chunk_nodes_def)

lemma merge_contains_nodes: "nodes (merge_contains f c g) = nodes g"
  by (simp add: merge_contains_def)

lemma merge_contains_rels:
  "set (rels (merge_contains f c g)) = set (List.product (file_nodes f g) (chunk_nodes c g)) \<union> set (rels g)"
  by (simp add: merge_contains_def set_fold_merge_rel)

lemma file_nodes_merge_contains: "file_nodes f (merge_contains f' c g) = file_nodes f g"
  by (simp add: merge_contains_def file_nodes_def)

lemma chunk_nodes_merge_contains: "chunk_nodes c (merge_contains f c' g) = chunk_nodes c g"
  by (simp add: merge_contains_def chunk_nodes_def)

lemma merge_contains_id:
  "set (List.product (file_nodes f g) (chunk_nodes c g)) \<subseteq> set (rels g) \<Longrightarrow> merge_contains f c g = g"
  by (simp add: merge_contains_def fold_merge_rel_id)

lemma linked_graph_step_id: "linked f c t g \<Longrightarrow> graph_step f c t g = g"
  by (simp add: linked_def graph_step_def merge_node_id merge_contains_id)

lemma linked_graph_step_other:
  assumes "linked f c t g"
  shows "linked f c t (graph_step f c' t' g)"
proof -
  let ?g2 = "merge_node (Chunk c' t') g"
  have g1: "merge_node (File f) g = g" using assms by (simp add: linked_def merge_node_id)
  have gs: "graph_step f c' t' g = merge_contains f c' ?g2" by (simp add: graph_step_def g1)
  have "File f \<in> set (map snd (nodes g))" using assms by (simp add: linked_def)
  then have "File f \<in> set (map snd (nodes ?g2))" by (rule merge_node_mono)
  then have a: "File f \<in> set (map snd (nodes (merge_contains f c' ?g2)))"
    by (simp only: merge_contains_nodes)
  have "Chunk c t \<in> set (map snd (nodes g))" using assms by (simp add: linked_def)
  then have "Chunk c t \<in> set (map snd (nodes ?g2))" by (rule merge_node_mono)
  then have b: "Chunk c t \<in> set (map snd (nodes (merge_contains f c' ?g2)))"
    by (simp only: merge_contains_nodes)
  have c: "set (List.product (file_nodes f (merge_contains f c' ?g2)) (chunk_nodes c (merge_contains f c' ?g2)))
            \<subseteq> set (rels (merge_contains f c' ?g2))"
  proof (cases "c = c'")
    case True
    then show ?thesis
      by (simp only: file_nodes_merge_contains chunk_nodes_merge_contains merge_contains_rels) simp
  next
    case False
    have "set (List.product (file_nodes f g) (chunk_nodes c g)) \<subseteq> set (rels g)"
      using assms by (simp add: linked_def)
    then have "set (List.product (file_nodes f ?g2) (chunk_nodes c ?g2)) \<subseteq> set (rels ?g2)"
      by (simp only: file_nodes_merge_chunk chunk_nodes_merge_other[OF False] merge_node_rels)
    then show ?thesis
      by (simp only: file_nodes_merge_contains chunk_nodes_merge_contains merge_contains_rels) blast
  qed
  show ?thesis unfolding gs linked_def using a b c by simp
qed

lemma linked_graph_step: "linked f c t (graph_step f c t g)"
proof -
  let ?g2 = "merge_node (Chunk c t) (merge_node (File f) g)"
  have "File f \<in> set (map snd (nodes (merge_node (File f) g)))" by (rule merge_node_mem)
  then have "File f \<in> set (map snd (nodes ?g2))" by (rule merge_node_mono)
  then have a: "File f \<in> set (map snd (nodes (merge_contains f c ?g2)))"
    by (simp only: merge_contains_nodes)
  have "Chunk c t \<in> set (map snd (nodes ?g2))" by (rule merge_node_mem)
  then have b: "Chunk c t \<in> set (map snd (nodes (merge_contains f c ?g2)))"
    by (simp only: merge_contains_nodes)
  have c: "set (List.product (file_nodes f (merge_contains f c ?g2)) (chunk_nodes c (merge_contains f c ?g2)))
            \<subseteq> set (rels (merge_contains f c ?g2))"
    by (simp only: file_nodes_merge_contains chunk_nodes_merge_contains merge_contains_rels) simp
  show ?thesis unfolding graph_step_def linked_def using a b c by simp
qed

lemma add_to_neo4j_graph_step: "neo4j (add_to_neo4j f c t w) = graph_step f c t (neo4j w)"
  by (simp add: add_to_neo4j_def graph_step_def)

lemma add_to_neo4j_idem: "add_to_neo4j f c t (add_to_neo4j f c t w) = add_to_neo4j f c t w"
proof -
  have "graph_step f c t (graph_step f c t (neo4j w)) = graph_step f c t (neo4j w)"
    by (rule linked_graph_step_id) (rule linked_graph_step)
  then show ?thesis by (simp add: add_to_neo4j_def graph_step_def)
qed

lemma add_to_neo4j_no_duplicates:
  assumes "distinct (map snd (nodes (neo4j w)))" "distinct (rels (neo4j w))"
  shows "distinct (map snd (nodes (neo4j (add_to_neo4j f c t w)))) \<and>
         distinct (rels (neo4j (add_to_neo4j f c t w)))"
proof -
  have n: "distinct (map snd (nodes g)) \<Longrightarrow> distinct (map snd (nodes (merge_node x g)))" for x g
    by (simp add: merge_node_def)
  show ?thesis
    using assms
    by (simp add: add_to_neo4j_def merge_contains_def n merge_node_rels distinct_fold_merge_rel)
qed

lemma collection_add_present:
  "doc_id \<in> set (map rec_id coll) \<Longrightarrow> collection_add env d e doc_id coll = Inr coll' \<Longrightarrow> coll' = coll"
  by (auto simp: collection_add_def split: option.splits)

lemma collection_add_ids:
  "collection_add env d e doc_id coll = Inr coll' \<Longrightarrow>
     set (map rec_id coll') = insert doc_id (set (map rec_id coll))"
  by (auto simp: collection_add_def split: if_splits option.splits)

lemma collection_add_distinct:
  "distinct (map rec_id coll) \<Longrightarrow> collection_add env d e doc_id coll = Inr coll' \<Longrightarrow>
     distinct (map rec_id coll')"
  by (auto simp: collection_add_def split: if_splits option.splits)

lemma add_to_chroma_present:
  assumes "doc_id \<in> set (map rec_id (chroma w))"
  shows "snd (add_to_chroma env doc_id chunk e w) = w"
proof (cases "collection_add env chunk e doc_id (chroma w)")
  case (Inl x)
  then show ?thesis by (simp add: add_to_chroma_def)
next
  case (Inr coll')
  then have "coll' = chroma w" using assms by (rule collection_add_present[rotated])
  then show ?thesis using Inr by (simp add: add_to_chroma_def)
qed

lemma add_to_chroma_Inl: "add_to_chroma env doc_id chunk e w = (Inl x, w2) \<Longrightarrow> w2 = w"
  by (auto simp: add_to_chroma_def split: sum.splits)

lemma add_to_chroma_Inr:
  "add_to_chroma env doc_id chunk e w = (Inr u, w2) \<Longrightarrow>
     neo4j w2 = neo4j w \<and> set (map rec_id (chroma w2)) = insert doc_id (set (map rec_id (chroma w))) \<and>
     (distinct (map rec_id (chroma w)) \<longrightarrow> distinct (map rec_id (chroma w2)))"
proof -
  assume a: "add_to_chroma env doc_id chunk e w = (Inr u, w2)"
  then obtain coll' where c: "collection_add env chunk e doc_id (chroma w) = Inr coll'"
    and w2: "w2 = w\<lparr>chroma := coll'\<rparr>"
    by (auto simp: add_to_chroma_def split: sum.splits)
  show ?thesis
    using collection_add_ids[OF c] collection_add_distinct[OF _ c] by (simp add: w2)
qed

lemma stored_cong:
  "chroma w' = chroma w \<Longrightarrow> neo4j w' = neo4j w \<Longrightarrow> stored f x w' = stored f x w"
  by (simp add: stored_def)

lemma stored_add_to_neo4j: "stored f x w \<Longrightarrow> stored f x (add_to_neo4j f c t w)"
proof -
  assume s: "stored f x w"
  have "chroma (add_to_neo4j f c t w) = chroma w" by (simp add: add_to_neo4j_def)
  moreover have "linked f (make_chunk_id f (fst x)) (snd x) (graph_step f c t (neo4j w))"
    using s by (intro linked_graph_step_other) (simp add: stored_def)
  ultimately show ?thesis using s by (simp add: stored_def add_to_neo4j_graph_step)
qed

lemma loop_step_cases:
  assumes "process_file_loop env f ((idx, chunk) # rest) w = (r, w1)"
  obtains (embed_fails) e where "r = Inl e" "w1 = w\<lparr>embedded := embedded w @ [chunk]\<rparr>"
  | (add_fails) e where "r = Inl e" "w1 = w\<lparr>embedded := embedded w @ [chunk]\<rparr>"
  | (continues) emb u w2 where
      "add_to_chroma env (make_chunk_id f idx) chunk emb (w\<lparr>embedded := embedded w @ [chunk]\<rparr>) = (Inr u, w2)"
      "process_file_loop env f rest (add_to_neo4j f (make_chunk_id f idx) chunk w2) = (r, w1)"
  using assms
  by (auto simp: embed_text_def split: sum.splits prod.splits dest: add_to_chroma_Inl)

lemma loop_preserves_stored:
  "stored f x w \<Longrightarrow> process_file_loop env f items w = (r, w1) \<Longrightarrow> stored f x w1"
proof (induction items arbitrary: w)
  case Nil
  then show ?case by simp
next
  case (Cons item rest)
  obtain idx chunk where item: "item = (idx, chunk)" by (cases item)
  let ?w0 = "w\<lparr>embedded := embedded w @ [chunk]\<rparr>"
  have s0: "stored f x ?w0" using Cons.prems(1) by (simp add: stored_def)
  from Cons.prems(2)[unfolded item] show ?case
  proof (cases rule: loop_step_cases)
    case (embed_fails e)
    then show ?thesis using s0 by simp
  next
    case (add_fails e)
    then show ?thesis using s0 by simp
  next
    case (continues emb u w2)
    have "stored f x w2"
      using add_to_chroma_Inr[OF continues(1)] s0 by (auto simp: stored_def)
    then have "stored f x (add_to_neo4j f (make_chunk_id f idx) chunk w2)"
      by (rule stored_add_to_neo4j)
    then show ?thesis using continues(2) by (rule Cons.IH)
  qed
qed

lemma loop_stores_all:
  "process_file_loop env f items w = (Inr u, w1) \<Longrightarrow> \<forall>x\<in>set items. stored f x w1"
proof (induction items arbitrary: w)
  case Nil
  then show ?case by simp
next
  case (Cons item rest)
  obtain idx chunk where item: "item = (idx, chunk)" by (cases item)
  from Cons.prems[unfolded item] show ?case
  proof (cases rule: loop_step_cases)
    case (embed_fails e)
    then show ?thesis by simp
  next
    case (add_fails e)
    then show ?thesis by simp
  next
    case (continues emb u' w2)
    let ?w3 = "add_to_neo4j f (make_chunk_id f idx) chunk w2"
    have "make_chunk_id f idx \<in> set (map rec_id (chroma ?w3))"
      using add_to_chroma_Inr[OF continues(1)] by (simp add: add_to_neo4j_def)
    moreover have "linked f (make_chunk_id f idx) chunk (neo4j ?w3)"
      by (simp only: add_to_neo4j_graph_step linked_graph_step)
    ultimately have "stored f (idx, chunk) ?w3" by (simp add: stored_def)
    then have "stored f item w1"
      using continues(2) unfolding item by (rule loop_preserves_stored)
    moreover have "\<forall>x\<in>set rest. stored f x w1" using continues(2) by (rule Cons.IH)
    ultimately show ?thesis by simp
  qed
qed

lemma loop_on_stored:
  "\<forall>x\<in>set items. stored f x w \<Longrightarrow> process_file_loop env f items w = (r, w1) \<Longrightarrow>
     chroma w1 = chroma w \<and> neo4j w1 = neo4j w"
proof (induction items arbitrary: w)
  case Nil
  then show ?case by simp
next
  case (Cons item rest)
  obtain idx chunk where item: "item = (idx, chunk)" by (cases item)
  let ?w0 = "w\<lparr>embedded := embedded w @ [chunk]\<rparr>"
  have here: "stored f (idx, chunk) w" using Cons.prems(1) item by simp
  from Cons.prems(2)[unfolded item] show ?case
  proof (cases rule: loop_step_cases)
    case (embed_fails e)
    then show ?thesis by simp
  next
    case (add_fails e)
    then show ?thesis by simp
  next
    case (continues emb u w2)
    let ?w3 = "add_to_neo4j f (make_chunk_id f idx) chunk w2"
    have "make_chunk_id f idx \<in> set (map rec_id (chroma ?w0))"
      using here by (simp add: stored_def)
    then have w2: "w2 = ?w0"
      using add_to_chroma_present[of "make_chunk_id f idx" ?w0 env chunk emb] continues(1) by simp
    have "graph_step f (make_chunk_id f idx) chunk (neo4j w) = neo4j w"
      using here by (intro linked_graph_step_id) (simp add: stored_def)
    then have same: "chroma ?w3 = chroma w" "neo4j ?w3 = neo4j w"
      by (simp_all add: w2 add_to_neo4j_graph_step) (simp add: add_to_neo4j_def)
    have "\<forall>x\<in>set rest. stored f x ?w3"
      using Cons.prems(1) stored_cong[OF same] by simp
    then have "chroma w1 = chroma ?w3 \<and> neo4j w1 = neo4j ?w3"
      using continues(2) by (rule Cons.IH)
    then show ?thesis using same by simp
  qed
qed

lemma loop_distinct:
  "distinct (map rec_id (chroma w)) \<Longrightarrow> process_file_loop env f items w = (r, w1) \<Longrightarrow>
     distinct (map rec_id (chroma w1))"
proof (induction items arbitrary: w)
  case Nil
  then show ?case by simp
next
  case (Cons item rest)
  obtain idx chunk where item: "item = (idx, chunk)" by (cases item)
  from Cons.prems(2)[unfolded item] show ?case
  proof (cases rule: loop_step_cases)
    case (embed_fails e)
    then show ?thesis using Cons.prems(1) by simp
  next
    case (add_fails e)
    then show ?thesis using Cons.prems(1) by simp
  next
    case (continues emb u w2)
    have "distinct (map rec_id (chroma w2))"
      using add_to_chroma_Inr[OF continues(1)] Cons.prems(1) by simp
    then have "distinct (map rec_id (chroma (add_to_neo4j f (make_chunk_id f idx) chunk w2)))"
      by (simp add: add_to_neo4j_def)
    then show ?thesis using continues(2) by (rule Cons.IH)
  qed
qed

lemma process_file_on_chunks:
  "extract_text env p = Some (Inr text) \<Longrightarrow> chunk_text text 500 50 = Inr chunks \<Longrightarrow>
   process_file env p w =
     (case process_file_loop env (basename p) (py_enumerate chunks) w of
        (Inl e, w1) \<Rightarrow> (Inl e, w1)
      | (Inr u, w1) \<Rightarrow>
          print env (lit ''Processed '' @ p @ lit '' with '' @ str_nat (length chunks) @
                     lit '' chunks.'') w1)"
  by (simp add: process_file_def)

lemma reingest_unchanged:
  assumes first: "process_file env file_path w = (Inr (), w1)"
      and same: "extract_text env' file_path = extract_text env file_path"
  shows "chroma (snd (process_file env' file_path w1)) = chroma w1 \<and>
         neo4j (snd (process_file env' file_path w1)) = neo4j w1"
proof (cases "extract_text env file_path")
  case None
  then show ?thesis using same by (simp add: process_file_def print_stores)
next
  case (Some res)
  show ?thesis
  proof (cases res)
    case (Inl e)
    then show ?thesis using Some first by (simp add: process_file_def)
  next
    case (Inr body)
    show ?thesis
    proof (cases "chunk_text body 500 50")
      case (Inl e)
      then show ?thesis using Some \<open>res = Inr body\<close> first by (simp add: process_file_def)
    next
      case (Inr chunks)
      let ?f = "basename file_path" and ?items = "py_enumerate chunks"
      let ?line = "lit ''Processed '' @ file_path @ lit '' with '' @
                  str_nat (length chunks) @ lit '' chunks.''"
      have x: "extract_text env file_path = Some (Inr body)" using Some \<open>res = Inr body\<close> by simp
      have x': "extract_text env' file_path = Some (Inr body)" using x same by simp
      obtain r0 w0 where l0: "process_file_loop env ?f ?items w = (r0, w0)" by force
      have r0: "r0 = Inr ()" and pr: "print env ?line w0 = (Inr (), w1)"
        using first l0 by (auto simp: process_file_on_chunks[OF x Inr] split: sum.splits)
      have w1: "chroma w1 = chroma w0" "neo4j w1 = neo4j w0"
        using print_Inr[OF pr] by simp_all
      have "\<forall>i\<in>set ?items. stored ?f i w0"
        using l0 unfolding r0 by (rule loop_stores_all)
      then have st: "\<forall>i\<in>set ?items. stored ?f i w1"
        using stored_cong[OF w1] by simp
      obtain r2 w2 where l2: "process_file_loop env' ?f ?items w1 = (r2, w2)" by force
      have "chroma w2 = chroma w1 \<and> neo4j w2 = neo4j w1"
        using st l2 by (rule loop_on_stored)
      then show ?thesis
        using l2 by (auto simp: process_file_on_chunks[OF x' Inr] print_stores split: sum.splits)
    qed
  qed
qed

lemma process_file_distinct:
  assumes "distinct (map rec_id (chroma w))"
  shows "distinct (map rec_id (chroma (snd (process_file env file_path w))))"
  using assms
  by (auto simp: process_file_def print_stores dest: loop_distinct[OF assms]
      split: option.splits sum.splits prod.splits)

text \<open>
  C6, as the code has it. Ingesting the same unchanged file a second time leaves the
  vector store and the graph store exactly as the first, successful ingestion left them,
  so the set of chunk ids is the same and no record, node or relationship is duplicated;
  ids that were distinct before the first ingestion are distinct after it. The
  vector-store write is \<open>Collection.add\<close>: for an id that the collection already holds
  it leaves the stored record as it is (the write is ignored or rejected, never an
  overwrite). A repeated \<open>add_to_neo4j\<close> with the same arguments changes nothing.
\<close>

theorem reingest_leaves_stores_unchanged:
  "(doc_id \<in> set (map rec_id (chroma w)) \<longrightarrow>
      chroma (snd (add_to_chroma env doc_id chunk embedding w)) = chroma w) \<and>
   add_to_neo4j file_id chunk_id chunk (add_to_neo4j file_id chunk_id chunk w) =
     add_to_neo4j file_id chunk_id chunk w \<and>
   (process_file env file_path w = (Inr (), w1) \<and>
    extract_text env' file_path = extract_text env file_path \<longrightarrow>
      chroma (snd (process_file env' file_path w1)) = chroma w1 \<and>
      neo4j (snd (process_file env' file_path w1)) = neo4j w1 \<and>
      (distinct (map rec_id (chroma w)) \<longrightarrow> distinct (map rec_id (chroma w1))))"
proof -
  have d: "distinct (map rec_id (chroma w1))"
    if "process_file env file_path w = (Inr (), w1)" "distinct (map rec_id (chroma w))"
    using process_file_distinct[OF that(2), of env file_path] that(1) by simp
  show ?thesis
    using reingest_unchanged[of env file_path w w1 env'] d
    by (simp add: add_to_chroma_present add_to_neo4j_idem)
qed

lemma big_id1: "make_chunk_id (lit ''big.txt'') (Suc 0) = lit ''big.txt_chunk_1''"
  by (simp add: make_chunk_id_def str_nat.simps lit_def)

lemma big_ids_differ: "lit ''big.txt_chunk_0'' \<noteq> lit ''big.txt_chunk_1''"
  by (simp add: lit_def)

lemma big_line:
  "lit ''Processed '' @ lit ''knowledge_base/big.txt'' @ lit '' with '' @ str_nat (length [a, b]) @ lit '' chunks.''
     = lit ''Processed knowledge_base/big.txt with 2 chunks.''"
  by (simp add: str_nat.simps lit_def)

lemma big_loop2:
  "process_file_loop demo_env (lit ''big.txt'') [(0, big_chunk0), (Suc 0, lit ''w'')] empty_world =
     (Inr (), big_world2\<lparr>stdout := []\<rparr>)"
proof -
  have w: "length (lit ''w'') = 1" by (simp add: lit_def)
  show ?thesis
    using big_ids_differ
    by (simp add: embed_text_def add_to_chroma_def collection_add_def add_to_neo4j_def
      merge_node_def merge_contains_def file_nodes_def chunk_nodes_def merge_rel_def
      demo_env_def empty_world_def big_world2_def big_id0 big_id1 w)
qed

lemma big_process: "process_file demo_env (lit ''knowledge_base/big.txt'') empty_world = (Inr (), big_world2)"
proof -
  have x: "extract_text demo_env (lit ''knowledge_base/big.txt'') = Some (Inr big_text)"
    by (rule big_extract) simp_all
  have e: "py_enumerate [big_chunk0, lit ''w''] = [(0, big_chunk0), (Suc 0, lit ''w'')]"
    by (simp add: py_enumerate_def)
  have o: "stdout_error demo_env (lit ''Processed knowledge_base/big.txt with 2 chunks.'') = None"
    by (simp add: demo_stdout utf8_stdout_ascii lit_def)
  have "process_file demo_env (lit ''knowledge_base/big.txt'') empty_world =
          print demo_env (lit ''Processed knowledge_base/big.txt with 2 chunks.'') (big_world2\<lparr>stdout := []\<rparr>)"
    unfolding process_file_on_chunks[OF x big_chunks] big_basename e big_loop2 big_line by simp
  then show ?thesis by (simp add: print_result o big_world2_def)
qed

lemma old_present: "lit ''a.txt_chunk_0'' \<in> set (map rec_id (chroma old_world))"
  by (simp add: old_world_def)

text \<open>
  C6: the theorem at a collection that holds the id written, and at \<open>big.txt\<close>
  ingested a second time while the embedding service fails on its second call.
\<close>

theorem reingest_leaves_stores_unchanged_witness:
  "lit ''a.txt_chunk_0'' \<in> set (map rec_id (chroma old_world)) \<and>
   chroma (snd (add_to_chroma demo_env (lit ''a.txt_chunk_0'') (lit ''new'') 7 old_world)) = chroma old_world \<and>
   process_file demo_env (lit ''knowledge_base/big.txt'') empty_world = (Inr (), big_world2) \<and>
   extract_text (flaky_env 1) (lit ''knowledge_base/big.txt'') =
     extract_text demo_env (lit ''knowledge_base/big.txt'') \<and>
   chroma (snd (process_file (flaky_env 1) (lit ''knowledge_base/big.txt'') big_world2)) = chroma big_world2 \<and>
   neo4j (snd (process_file (flaky_env 1) (lit ''knowledge_base/big.txt'') big_world2)) = neo4j big_world2 \<and>
   distinct (map rec_id (chroma empty_world)) \<and>
   distinct (map rec_id (chroma big_world2))"
proof -
  have x: "extract_text (flaky_env 1) (lit ''knowledge_base/big.txt'') =
     extract_text demo_env (lit ''knowledge_base/big.txt'')"
    using big_extract[of "flaky_env 1"] big_extract[of demo_env] by (simp add: flaky_env_def)
  have d: "distinct (map rec_id (chroma empty_world))" by (simp add: empty_world_def)
  show ?thesis
    using reingest_leaves_stores_unchanged[where doc_id = "lit ''a.txt_chunk_0''" and w = old_world
        and env = demo_env and chunk = "lit ''new''" and embedding = 7]
      reingest_leaves_stores_unchanged[where env = demo_env and file_path = "lit ''knowledge_base/big.txt''"
        and w = empty_world and ?w1.0 = big_world2 and env' = "flaky_env 1"]
      old_present big_process x d
    by simp
qed

text \<open>
  C6, as the specification states it, fails: writing the document \<open>new\<close> under an id
  that the collection holds with the document \<open>old\<close> returns normally and leaves
  \<open>old\<close> in place.
\<close>

theorem add_overwrites_counterexample:
  "lit ''a.txt_chunk_0'' \<in> set (map rec_id (chroma old_world)) \<and>
   add_to_chroma demo_env (lit ''a.txt_chunk_0'') (lit ''new'') 7 old_world = (Inr (), old_world) \<and>
   map rec_document (chroma old_world) = [lit ''old''] \<and>
   lit ''old'' \<noteq> lit ''new''"
proof -
  have "lit ''old'' \<noteq> lit ''new''" by (simp add: lit_def)
  then show ?thesis
    by (simp add: add_to_chroma_def collection_add_def old_world_def empty_world_def demo_env_def)
qed

section \<open>The deletion handler and the text extractor on concrete inputs\<close>

lemma doc1_extract: "extract_text demo_env (lit ''knowledge_base/doc1.txt'') = Some (Inr (lit ''hello world''))"
proof -
  have x: "file_ext demo_env (lit ''knowledge_base/doc1.txt'') = lit ''.txt''"
    by (simp add: file_ext_def splitext_ext_def basename_def py_lower_def ascii_lower_def lit_def demo_env_def)
  have r: "read_file demo_env (lit ''knowledge_base/doc1.txt'') = Inr ''hello world''"
    by (simp add: demo_env_def demo_files_def lit_def)
  have v: "lit ''hello world'' = [104, 101, 108, 108, 111, 32, 119, 111, 114, 108, 100]"
    by (simp add: lit_def)
  have t: "extract_text_from_txt demo_env (lit ''knowledge_base/doc1.txt'') = Inr (lit ''hello world'')"
    by (simp add: extract_text_from_txt_def open_read_def r v)
  show ?thesis by (simp add: extract_text_txt[OF x] t)
qed

lemma doc1_chunks: "chunk_text (lit ''hello world'') 500 50 = Inr [lit ''hello world'']"
proof -
  have s: "split (lit ''hello world'') = [lit ''hello'', lit ''world'']"
    by (simp add: split_def lit_def isspace_def)
  have r: "range_up 0 2 450 = [0]" by (simp add: range_up.simps)
  have j: "lit ''hello'' @ lit '' '' @ lit ''world'' = lit ''hello world''" by (simp add: lit_def)
  have n: "lit ''hello world'' \<noteq> []" by (simp add: lit_def)
  show ?thesis
    by (simp add: chunk_text_def s r py_range_def window_def py_slice_def j n)
qed

lemma doc1_process:
  "process_file demo_env (lit ''knowledge_base/doc1.txt'') empty_world = (Inr (), doc1_world)"
proof -
  have b: "basename (lit ''knowledge_base/doc1.txt'') = lit ''doc1.txt''"
    by (simp add: basename_def lit_def)
  have i: "make_chunk_id (lit ''doc1.txt'') 0 = lit ''doc1.txt_chunk_0''"
    by (simp add: make_chunk_id_def str_nat.simps lit_def)
  have l: "lit ''Processed '' @ lit ''knowledge_base/doc1.txt'' @ lit '' with '' @ str_nat (length [a]) @ lit '' chunks.''
     = lit ''Processed knowledge_base/doc1.txt with 1 chunks.''" for a :: pystr
    by (simp add: str_nat.simps lit_def)
  have n: "length (lit ''hello world'') = 11" by (simp add: lit_def)
  have loop: "process_file_loop demo_env (lit ''doc1.txt'') [(0, lit ''hello world'')] empty_world =
                (Inr (), doc1_world\<lparr>stdout := []\<rparr>)"
    by (simp add: embed_text_def add_to_chroma_def collection_add_def add_to_neo4j_def
      merge_node_def merge_contains_def file_nodes_def chunk_nodes_def merge_rel_def
      demo_env_def empty_world_def doc1_world_def i n)
  have e: "py_enumerate [lit ''hello world''] = [(0, lit ''hello world'')]"
    by (simp add: py_enumerate_def)
  have o: "stdout_error demo_env (lit ''Processed knowledge_base/doc1.txt with 1 chunks.'') = None"
    by (simp add: demo_stdout utf8_stdout_ascii lit_def)
  have "process_file demo_env (lit ''knowledge_base/doc1.txt'') empty_world =
          print demo_env (lit ''Processed knowledge_base/doc1.txt with 1 chunks.'') (doc1_world\<lparr>stdout := []\<rparr>)"
    unfolding process_file_on_chunks[OF doc1_extract doc1_chunks] b e loop l by simp
  then show ?thesis by (simp add: print_result o doc1_world_def)
qed

text \<open>
  A record that \<open>add_to_chroma\<close> writes has no metadata, and \<open>on_deleted\<close> of a file
  raises \<open>TypeError\<close>, changing nothing, whenever the first record of the collection has
  none.
\<close>

lemma add_to_chroma_no_metadata:
  "add_to_chroma env doc_id chunk e w = (Inr u, w2) \<Longrightarrow>
     doc_id \<notin> set (map rec_id (chroma w)) \<Longrightarrow>
     rec_metadata (last (chroma w2)) = None \<and> rec_id (last (chroma w2)) = doc_id"
  by (auto simp: add_to_chroma_def collection_add_def split: if_splits)

lemma on_deleted_raises_without_metadata:
  assumes "\<not> is_directory ev" "chroma w \<noteq> []" "rec_metadata (hd (chroma w)) = None"
  shows "on_deleted env ev w = (Inl TypeError, w)"
proof -
  obtain r rs where "chroma w = r # rs" using assms(2) by (cases "chroma w") auto
  then show ?thesis using assms(1,3) by (simp add: on_deleted_def)
qed

text \<open>
  C1: the code at the file \<open>doc1.txt\<close>, ingested from the empty stores and then
  deleted. The records that \<open>add_to_chroma\<close> writes carry no metadata, so \<open>doc['id']\<close>
  raises \<open>TypeError\<close> on the first of them: \<open>on_deleted\<close> raises, the chunk id of the
  file is still in the vector store and its \<open>File\<close> node still in the graph. The
  deletion of a file that has no chunk raises in the same way.
\<close>

theorem on_deleted_raises_after_ingest:
  "process_file demo_env (lit ''knowledge_base/doc1.txt'') empty_world = (Inr (), doc1_world) \<and>
   on_deleted demo_env \<lparr>is_directory = False, src_path = lit ''knowledge_base/doc1.txt''\<rparr> doc1_world =
     (Inl TypeError, doc1_world) \<and>
   ids_with_prefix (lit ''doc1.txt_chunk_'') doc1_world = [lit ''doc1.txt_chunk_0''] \<and>
   has_file_node (lit ''doc1.txt'') doc1_world \<and>
   ids_with_prefix (lit ''gone.txt_chunk_'') doc1_world = [] \<and>
   on_deleted demo_env \<lparr>is_directory = False, src_path = lit ''knowledge_base/gone.txt''\<rparr> doc1_world =
     (Inl TypeError, doc1_world)"
proof -
  have d: "on_deleted demo_env \<lparr>is_directory = False, src_path = p\<rparr> doc1_world = (Inl TypeError, doc1_world)" for p
    by (simp add: on_deleted_def doc1_world_def)
  have i: "ids_with_prefix (lit ''doc1.txt_chunk_'') doc1_world = [lit ''doc1.txt_chunk_0'']"
    by (simp add: ids_with_prefix_def doc1_world_def lit_def)
  have g: "ids_with_prefix (lit ''gone.txt_chunk_'') doc1_world = []"
    by (simp add: ids_with_prefix_def doc1_world_def lit_def)
  have h: "has_file_node (lit ''doc1.txt'') doc1_world"
    by (simp add: has_file_node_def doc1_world_def)
  show ?thesis using doc1_process d i g h by simp
qed














text \<open>
  C5: the code at \<open>cafe.txt\<close>, a text file in ISO-8859-1. The extractor of the
  pipeline decodes UTF-8 only and raises \<open>UnicodeDecodeError\<close>, which \<open>process_file\<close>
  lets through; the reader of the upload processor, which tries \<open>utf-8\<close>, \<open>latin-1\<close> and
  \<open>cp1252\<close> in turn, reads the same file.
\<close>

theorem utf8_only_extraction:
  "read_file demo_env (lit ''knowledge_base/cafe.txt'') = Inr [CHR ''c'', CHR ''a'', CHR ''f'', CHR 0xE9] \<and>
   extract_text_from_txt demo_env (lit ''knowledge_base/cafe.txt'') = Inl UnicodeDecodeError \<and>
   process_file demo_env (lit ''knowledge_base/cafe.txt'') empty_world = (Inl UnicodeDecodeError, empty_world) \<and>
   read_text_file demo_env (lit ''knowledge_base/cafe.txt'') =
     Inr (lit ''File content:'' @ [10, 10] @ [99, 97, 102, 233])"
proof -
  have x: "file_ext demo_env (lit ''knowledge_base/cafe.txt'') = lit ''.txt''"
    by (simp add: file_ext_def splitext_ext_def basename_def py_lower_def ascii_lower_def lit_def demo_env_def)
  have r: "read_file demo_env (lit ''knowledge_base/cafe.txt'') = Inr [CHR ''c'', CHR ''a'', CHR ''f'', CHR 0xE9]"
    by (simp add: demo_env_def demo_files_def lit_def)
  have u: "open_read demo_env (lit ''knowledge_base/cafe.txt'') UTF8 = Inl UnicodeDecodeError"
    by (simp add: open_read_def r)
  have l: "open_read demo_env (lit ''knowledge_base/cafe.txt'') Latin1 = Inr [99, 97, 102, 233]"
    by (simp add: open_read_def r)
  have t: "extract_text_from_txt demo_env (lit ''knowledge_base/cafe.txt'') = Inl UnicodeDecodeError"
    by (simp add: extract_text_from_txt_def u)
  have p: "process_file demo_env (lit ''knowledge_base/cafe.txt'') empty_world = (Inl UnicodeDecodeError, empty_world)"
    by (simp add: process_file_def extract_text_txt[OF x] t)
  have f: "read_text_file demo_env (lit ''knowledge_base/cafe.txt'') =
     Inr (lit ''File content:'' @ [10, 10] @ [99, 97, 102, 233])"
    by (simp add: read_text_file_def u l)
  show ?thesis using r t p f by simp
qed

end
